theory Spec2Isabelle
  imports Complex_Main
begin

section \<open>Data model (types.ts)\<close>

text \<open>
  JavaScript numbers are idealised as reals: every coordinate that reaches the kernel comes
  from level JSON or from arithmetic on such values, so NaN and the infinities only arise
  from a division by zero, which the model writes out where the source can reach one.
  Optional fields (\<^verbatim>\<open>type?: LineType\<close>) are options; \<^verbatim>\<open>undefined\<close> is \<open>None\<close>.
  The structural types \<^verbatim>\<open>{ x: number; y: number }\<close> and
  \<^verbatim>\<open>{ p1; p2; type? }\<close> are records, and \<^verbatim>\<open>Point\<close> and \<^verbatim>\<open>Segment\<close> extend them, so
  that a function typed on the smaller shape accepts the larger one as in TypeScript.
  The \<^verbatim>\<open>id\<close> and \<^verbatim>\<open>isInitial\<close> fields occur in both interfaces and are told apart by a
  prefix.
\<close>

datatype LineType = SEGMENT | RAY | LINE

record XY =
  x :: real
  y :: real

record Point = XY +
  pid :: string
  isIntersection :: "bool option"
  label :: "string option"
  isInitial :: "bool option"

record 'p SegShape =
  p1 :: 'p
  p2 :: 'p
  type :: "LineType option"

record Segment = "Point SegShape" +
  sid :: string
  sIsInitial :: "bool option"

section \<open>Geometry kernel (geometryUtils.ts)\<close>

definition EPSILON :: real where
  "EPSILON = 1 / 10000"

definition GRID_MIN :: real where
  "GRID_MIN = 0"

definition GRID_MAX :: real where
  "GRID_MAX = 6"

text \<open>\<^verbatim>\<open>s.type || LineType.SEGMENT\<close>: every enum value is a non-empty string, hence truthy.\<close>

definition typeOr :: "LineType option \<Rightarrow> LineType" where
  "typeOr ty = (case ty of None \<Rightarrow> SEGMENT | Some v \<Rightarrow> v)"

text \<open>
  \<^verbatim>\<open>checkConstraint(t, type = LineType.SEGMENT)\<close>: the default parameter replaces
  \<^verbatim>\<open>undefined\<close>; the \<^verbatim>\<open>default:\<close> branch of the switch is unreachable for the three tags.
\<close>

fun checkConstraint :: "real \<Rightarrow> LineType option \<Rightarrow> bool" where
  "checkConstraint t None = (t \<ge> - EPSILON \<and> t \<le> 1 + EPSILON)"
| "checkConstraint t (Some SEGMENT) = (t \<ge> - EPSILON \<and> t \<le> 1 + EPSILON)"
| "checkConstraint t (Some RAY) = (t \<ge> - EPSILON)"
| "checkConstraint t (Some LINE) = True"

text \<open>
  \<^verbatim>\<open>getIntersection(s1, s2)\<close>. The source tags the result with
  \<^verbatim>\<open>`int-${Math.random()}`\<close>; the rendered random number is the parameter \<open>rnd\<close>.
\<close>

definition getIntersection :: "Segment \<Rightarrow> Segment \<Rightarrow> string \<Rightarrow> Point option" where
  "getIntersection s1 s2 rnd =
    (let x1 = x (p1 s1); y1 = y (p1 s1);
         x2 = x (p2 s1); y2 = y (p2 s1);
         x3 = x (p1 s2); y3 = y (p1 s2);
         x4 = x (p2 s2); y4 = y (p2 s2);
         denom = (y4 - y3) * (x2 - x1) - (x4 - x3) * (y2 - y1)
     in if \<bar>denom\<bar> < EPSILON then None
        else
          let t = ((x4 - x3) * (y1 - y3) - (y4 - y3) * (x1 - x3)) / denom;
              u = ((x2 - x1) * (y1 - y3) - (y2 - y1) * (x1 - x3)) / denom
          in if checkConstraint t (type s1) \<and> checkConstraint u (type s2) then
               (let ix = x1 + t * (x2 - x1);
                    iy = y1 + t * (y2 - y1)
                in if ix \<ge> GRID_MIN - EPSILON \<and> ix \<le> GRID_MAX + EPSILON \<and>
                      iy \<ge> GRID_MIN - EPSILON \<and> iy \<le> GRID_MAX + EPSILON
                   then Some \<lparr>x = ix, y = iy, pid = ''int-'' @ rnd,
                              isIntersection = Some True, label = None, isInitial = None\<rparr>
                   else None)
             else None)"

definition pointsEqual :: "'a XY_scheme \<Rightarrow> 'b XY_scheme \<Rightarrow> bool" where
  "pointsEqual a b = (\<bar>x a - x b\<bar> < EPSILON \<and> \<bar>y a - y b\<bar> < EPSILON)"

text \<open>
  \<^verbatim>\<open>segmentsEqual(s1, s2)\<close>, with the early returns of the source as nested conditionals.
  In the ray branch the quotient is \<^verbatim>\<open>NaN\<close> (0/0) when either direction vector is zero, and
  every comparison with \<^verbatim>\<open>NaN\<close> is false.
\<close>

definition segmentsEqual :: "Segment \<Rightarrow> ('b XY_scheme, 'n) SegShape_scheme \<Rightarrow> bool" where
  "segmentsEqual s1 s2 =
    (let typeMatch = (typeOr (type s1) = typeOr (type s2))
     in if \<not> typeMatch then False
        else if typeOr (type s1) = SEGMENT then
          (pointsEqual (p1 s1) (p1 s2) \<and> pointsEqual (p2 s1) (p2 s2)) \<or>
          (pointsEqual (p1 s1) (p2 s2) \<and> pointsEqual (p2 s1) (p1 s2))
        else if type s1 = Some RAY then
          (if \<not> pointsEqual (p1 s1) (p1 s2) then False
           else
             let v1x = x (p2 s1) - x (p1 s1); v1y = y (p2 s1) - y (p1 s1);
                 v2x = x (p2 s2) - x (p1 s2); v2y = y (p2 s2) - y (p1 s2);
                 mag1 = sqrt (v1x ^ 2 + v1y ^ 2);
                 mag2 = sqrt (v2x ^ 2 + v2y ^ 2)
             in if mag1 * mag2 = 0 then False
                else
                  let dot = (v1x * v2x + v1y * v2y) / (mag1 * mag2)
                  in \<bar>dot - 1\<bar> < EPSILON)
        else
          let crossProduct = (x (p2 s1) - x (p1 s1)) * (y (p2 s2) - y (p1 s2))
                           - (y (p2 s1) - y (p1 s1)) * (x (p2 s2) - x (p1 s2))
          in if \<bar>crossProduct\<bar> > EPSILON then False
             else
               let dist = (x (p2 s1) - x (p1 s1)) * (y (p1 s2) - y (p1 s1))
                        - (y (p2 s1) - y (p1 s1)) * (x (p1 s2) - x (p1 s1))
               in \<bar>dist\<bar> < EPSILON)"

definition distSq :: "'a XY_scheme \<Rightarrow> 'b XY_scheme \<Rightarrow> real" where
  "distSq a b = (x a - x b) ^ 2 + (y a - y b) ^ 2"

section \<open>Puzzle engine (App.tsx)\<close>

definition GRID_SIZE :: nat where
  "GRID_SIZE = 7"

definition SNAP_THRESHOLD :: real where
  "SNAP_THRESHOLD = 4 / 10"

definition DRAG_THRESHOLD_PX :: real where
  "DRAG_THRESHOLD_PX = 8"

text \<open>Decimal rendering of an index or a timestamp inside a template string.\<close>

fun string_of_nat :: "nat \<Rightarrow> string" where
  "string_of_nat n =
     (if n < 10 then [''0123456789'' ! n]
      else string_of_nat (n div 10) @ [''0123456789'' ! (n mod 10)])"

declare string_of_nat.simps [simp del]

subsection \<open>Level data\<close>

text \<open>
  \<^verbatim>\<open>LevelConfig\<close>: the lists of \<^verbatim>\<open>initial\<close> and \<^verbatim>\<open>goals\<close> are optional fields. The interface
  declares \<^verbatim>\<open>goals\<close> itself as required, but the goal effect guards
  \<^verbatim>\<open>!currentLevel?.goals\<close>, so loaded JSON without it is a case of the model.
\<close>

record InitPoint = XY +
  ilabel :: "string option"

record Initial =
  ipoints :: "InitPoint list option"
  isegments :: "XY SegShape list option"

record Goals =
  gpoints :: "XY list option"
  gsegments :: "XY SegShape list option"

record LevelConfig =
  lid :: int
  title :: string
  description :: string
  lineType :: "LineType option"
  initial :: Initial
  goals :: "Goals option"

subsection \<open>Component state\<close>

record HistoryState =
  points :: "Point list"
  segments :: "Segment list"

text \<open>
  The \<^verbatim>\<open>useState\<close> cells of \<^verbatim>\<open>App\<close> that the engine reads or writes. The board cell
  \<^verbatim>\<open>segments\<close> is the field \<open>segs\<close> (the name \<open>segments\<close> is the field of
  \<^verbatim>\<open>HistoryState\<close>).
\<close>

record engine =
  history :: "HistoryState list"
  historyIndex :: int
  visiblePoints :: "Point list"
  segs :: "Segment list"
  isLevelCleared :: bool
  clearedLevelIds :: "int list"
  dragStartPoint :: "Point option"
  dragSnapPoint :: "Point option"
  currentMousePos :: "XY option"
  startMouseScreenPos :: "XY option"
  isActuallyDragging :: bool

datatype error = TypeError

text \<open>The state of the first render.\<close>

definition initialEngine :: engine where
  "initialEngine =
     \<lparr>history = [], historyIndex = - 1, visiblePoints = [], segs = [],
      isLevelCleared = False, clearedLevelIds = [],
      dragStartPoint = None, dragSnapPoint = None, currentMousePos = None,
      startMouseScreenPos = None, isActuallyDragging = False\<rparr>"

definition resetInteraction :: "engine \<Rightarrow> engine" where
  "resetInteraction s =
     s\<lparr>dragStartPoint := None, dragSnapPoint := None, currentMousePos := None,
       startMouseScreenPos := None, isActuallyDragging := False\<rparr>"

subsection \<open>History\<close>

text \<open>\<^verbatim>\<open>prev.slice(0, e)\<close>: a negative end counts from the end of the array.\<close>

definition sliceTo :: "'a list \<Rightarrow> int \<Rightarrow> 'a list" where
  "sliceTo xs e = take (nat (if e < 0 then int (length xs) + e else e)) xs"

text \<open>\<^verbatim>\<open>history[i]\<close>: \<^verbatim>\<open>undefined\<close> outside the array.\<close>

definition arrayAt :: "'a list \<Rightarrow> int \<Rightarrow> 'a option" where
  "arrayAt xs i = (if 0 \<le> i \<and> i < int (length xs) then Some (xs ! nat i) else None)"

definition commitToHistory :: "Point list \<Rightarrow> Segment list \<Rightarrow> engine \<Rightarrow> engine" where
  "commitToHistory newPoints newSegments s =
     (let newState = \<lparr>points = newPoints, segments = newSegments\<rparr>;
          truncated = sliceTo (history s) (historyIndex s + 1)
      in s\<lparr>history := truncated @ [newState],
           historyIndex := historyIndex s + 1,
           visiblePoints := newPoints,
           segs := newSegments\<rparr>)"

definition listOr :: "'a list option \<Rightarrow> 'a list" where
  "listOr v = (case v of None \<Rightarrow> [] | Some xs \<Rightarrow> xs)"

definition initPoints :: "LevelConfig \<Rightarrow> Point list" where
  "initPoints lv =
     map (\<lambda>(i, p). \<lparr>x = x p, y = y p, pid = ''init-p-'' @ string_of_nat i,
                     isIntersection = None, label = ilabel p, isInitial = Some True\<rparr>)
         (enumerate 0 (listOr (ipoints (initial lv))))"

definition initSegments :: "LevelConfig \<Rightarrow> Segment list" where
  "initSegments lv =
     map (\<lambda>(i, s).
            \<lparr>p1 = \<lparr>x = x (p1 s), y = y (p1 s), pid = ''init-s-p1-'' @ string_of_nat i,
                   isIntersection = None, label = None, isInitial = None\<rparr>,
             p2 = \<lparr>x = x (p2 s), y = y (p2 s), pid = ''init-s-p2-'' @ string_of_nat i,
                   isIntersection = None, label = None, isInitial = None\<rparr>,
             type = Some (typeOr (type s)),
             sid = ''init-s-'' @ string_of_nat i,
             sIsInitial = Some True\<rparr>)
         (enumerate 0 (listOr (isegments (initial lv))))"

text \<open>\<^verbatim>\<open>resetLevel\<close>; \<^verbatim>\<open>currentLevel\<close> is \<^verbatim>\<open>undefined\<close> while no level is loaded.\<close>

definition resetLevel :: "LevelConfig option \<Rightarrow> engine \<Rightarrow> engine" where
  "resetLevel currentLevel s =
     (case currentLevel of
        None \<Rightarrow> s
      | Some lv \<Rightarrow>
          (let startState = \<lparr>points = initPoints lv, segments = initSegments lv\<rparr>
           in (resetInteraction (s\<lparr>isLevelCleared := False\<rparr>))
                \<lparr>history := [startState],
                 historyIndex := 0,
                 visiblePoints := initPoints lv,
                 segs := initSegments lv\<rparr>))"

text \<open>
  \<^verbatim>\<open>undo\<close> and \<^verbatim>\<open>redo\<close>. Reading \<^verbatim>\<open>state.points\<close> of an \<^verbatim>\<open>undefined\<close> array element throws.
\<close>

definition undo :: "engine \<Rightarrow> error + engine" where
  "undo s =
     (if historyIndex s > 0 then
        (let prevIndex = historyIndex s - 1
         in case arrayAt (history s) prevIndex of
              None \<Rightarrow> Inl TypeError
            | Some state \<Rightarrow>
                Inr (s\<lparr>historyIndex := prevIndex,
                       visiblePoints := points state,
                       segs := segments state,
                       isLevelCleared := False\<rparr>))
      else Inr s)"

definition redo :: "engine \<Rightarrow> error + engine" where
  "redo s =
     (if historyIndex s < int (length (history s)) - 1 then
        (let nextIndex = historyIndex s + 1
         in case arrayAt (history s) nextIndex of
              None \<Rightarrow> Inl TypeError
            | Some state \<Rightarrow>
                Inr (s\<lparr>historyIndex := nextIndex,
                       visiblePoints := points state,
                       segs := segments state\<rparr>))
      else Inr s)"

subsection \<open>Goal evaluation\<close>

text \<open>
  The condition of the goal effect (lines 178 to 180). \<^verbatim>\<open>!goals.points\<close> is true only for a
  missing list, and \<^verbatim>\<open>goals.points || goals.segments\<close> is truthy as soon as one list is
  present: an empty array is truthy.
\<close>

definition pointsCleared :: "Goals \<Rightarrow> Point list \<Rightarrow> bool" where
  "pointsCleared g vps =
     (case gpoints g of
        None \<Rightarrow> True
      | Some gps \<Rightarrow> list_all (\<lambda>gp. list_ex (\<lambda>vp. pointsEqual vp gp) vps) gps)"

definition segmentsCleared :: "Goals \<Rightarrow> Segment list \<Rightarrow> bool" where
  "segmentsCleared g sgs =
     (case gsegments g of
        None \<Rightarrow> True
      | Some gss \<Rightarrow> list_all (\<lambda>gs. list_ex (\<lambda>sg. segmentsEqual sg gs) sgs) gss)"

definition clearedVerdict :: "Goals \<Rightarrow> Point list \<Rightarrow> Segment list \<Rightarrow> bool" where
  "clearedVerdict g vps sgs =
     (pointsCleared g vps \<and> segmentsCleared g sgs \<and>
      (gpoints g \<noteq> None \<or> gsegments g \<noteq> None))"

definition goalEffect :: "LevelConfig option \<Rightarrow> engine \<Rightarrow> engine" where
  "goalEffect currentLevel s =
     (case currentLevel of
        None \<Rightarrow> s
      | Some lv \<Rightarrow>
          (case goals lv of
             None \<Rightarrow> s
           | Some g \<Rightarrow>
               if isLevelCleared s then s
               else if clearedVerdict g (visiblePoints s) (segs s) then
                 s\<lparr>isLevelCleared := True,
                   clearedLevelIds :=
                     (if lid lv \<in> set (clearedLevelIds s) then clearedLevelIds s
                      else clearedLevelIds s @ [lid lv])\<rparr>
               else s))"

subsection \<open>Discoverable points\<close>

text \<open>
  The closure \<^verbatim>\<open>addPoint\<close> of \<^verbatim>\<open>allDiscoverablePoints\<close>, with the array it pushes to as
  an argument. \<^verbatim>\<open>points.find\<close> returns an object or \<^verbatim>\<open>undefined\<close>.
\<close>

definition addPoint :: "real \<Rightarrow> real \<Rightarrow> string \<Rightarrow> Point list \<Rightarrow> Point list" where
  "addPoint px py source pts =
     (if px < - EPSILON \<or> px > real GRID_SIZE - 1 + EPSILON \<or>
         py < - EPSILON \<or> py > real GRID_SIZE - 1 + EPSILON then pts
      else
        let p = \<lparr>x = px, y = py\<rparr>
        in if find (\<lambda>existing. pointsEqual existing p) pts = None then
             pts @ [\<lparr>x = px, y = py,
                     pid = ''potential-'' @ source @ ''-'' @ string_of_nat (length pts),
                     isIntersection = Some True, label = None, isInitial = None\<rparr>]
           else pts)"

text \<open>The first loop nest: \<^verbatim>\<open>x\<close> outside, \<^verbatim>\<open>y\<close> inside.\<close>

definition gridPoints :: "Point list" where
  "gridPoints =
     foldl (\<lambda>pts gx. foldl (\<lambda>pts gy. addPoint (real gx) (real gy) ''grid'' pts) pts
                        [0..<GRID_SIZE])
           [] [0..<GRID_SIZE]"

text \<open>The inline validity test of the two gridline loops.\<close>

definition valid :: "LineType \<Rightarrow> real \<Rightarrow> bool" where
  "valid ty t =
     (if ty = SEGMENT then t \<ge> - EPSILON \<and> t \<le> 1 + EPSILON
      else if ty = RAY then t \<ge> - EPSILON else True)"

text \<open>
  The three loops of the body of \<^verbatim>\<open>segments.forEach((s, idx) => ...)\<close>. The random number
  that \<^verbatim>\<open>getIntersection\<close> draws for the pair \<open>(idx, j)\<close> is \<open>rnd idx j\<close>.
\<close>

definition pairLoop ::
  "(nat \<Rightarrow> nat \<Rightarrow> string) \<Rightarrow> Segment list \<Rightarrow> nat \<Rightarrow> Segment \<Rightarrow> Point list \<Rightarrow> Point list" where
  "pairLoop rnd sgs idx s pts0 =
     foldl (\<lambda>pts j.
              case getIntersection s (sgs ! j) (rnd idx j) of
                None \<Rightarrow> pts
              | Some crossing \<Rightarrow> addPoint (x crossing) (y crossing) ''seg-seg'' pts)
           pts0 [idx + 1..<length sgs]"

definition vLoop :: "Segment \<Rightarrow> Point list \<Rightarrow> Point list" where
  "vLoop s pts0 =
     (let ty = typeOr (type s);
          dx = x (p2 s) - x (p1 s);
          dy = y (p2 s) - y (p1 s)
      in foldl (\<lambda>pts k.
                  if \<bar>dx\<bar> > EPSILON then
                    (let t = (real k - x (p1 s)) / dx
                     in if valid ty t then addPoint (real k) (y (p1 s) + t * dy) ''seg-grid-v'' pts
                        else pts)
                  else pts)
               pts0 [0..<GRID_SIZE])"

definition hLoop :: "Segment \<Rightarrow> Point list \<Rightarrow> Point list" where
  "hLoop s pts0 =
     (let ty = typeOr (type s);
          dx = x (p2 s) - x (p1 s);
          dy = y (p2 s) - y (p1 s)
      in foldl (\<lambda>pts k.
                  if \<bar>dy\<bar> > EPSILON then
                    (let t = (real k - y (p1 s)) / dy
                     in if valid ty t then addPoint (x (p1 s) + t * dx) (real k) ''seg-grid-h'' pts
                        else pts)
                  else pts)
               pts0 [0..<GRID_SIZE])"

definition allDiscoverablePoints :: "(nat \<Rightarrow> nat \<Rightarrow> string) \<Rightarrow> Segment list \<Rightarrow> Point list" where
  "allDiscoverablePoints rnd sgs =
     foldl (\<lambda>pts (idx, s). hLoop s (vLoop s (pairLoop rnd sgs idx s pts)))
           gridPoints (enumerate 0 sgs)"

subsection \<open>Pointer handlers\<close>

text \<open>
  \<^verbatim>\<open>findNearestPoint\<close>: the loop keeps the first candidate at the least distance below the
  snap threshold.
\<close>

definition findNearestPoint :: "Point list \<Rightarrow> Point list \<Rightarrow> real \<Rightarrow> real \<Rightarrow> Point option" where
  "findNearestPoint vps discoverable gridX gridY =
     fst (foldl (\<lambda>(closest, minD) p.
                   let d = sqrt (distSq p \<lparr>x = gridX, y = gridY\<rparr>)
                   in if d < minD then (Some p, d) else (closest, minD))
                (None, SNAP_THRESHOLD) (vps @ discoverable))"

text \<open>
  A pointer event as the handlers see it: the client position, and the grid position that
  \<^verbatim>\<open>getGridCoords\<close> derives from it and the SVG transform (outside this model).
\<close>

record pointer =
  clientX :: real
  clientY :: real
  coords :: XY

definition nearest :: "(nat \<Rightarrow> nat \<Rightarrow> string) \<Rightarrow> engine \<Rightarrow> pointer \<Rightarrow> Point option" where
  "nearest rnd s e =
     findNearestPoint (visiblePoints s) (allDiscoverablePoints rnd (segs s))
       (x (coords e)) (y (coords e))"

definition handleMouseDown :: "(nat \<Rightarrow> nat \<Rightarrow> string) \<Rightarrow> pointer \<Rightarrow> engine \<Rightarrow> engine" where
  "handleMouseDown rnd e s =
     (if isLevelCleared s then s
      else case nearest rnd s e of
             None \<Rightarrow> s
           | Some startPoint \<Rightarrow>
               s\<lparr>dragStartPoint := Some startPoint,
                 startMouseScreenPos := Some \<lparr>x = clientX e, y = clientY e\<rparr>,
                 isActuallyDragging := False\<rparr>)"

definition handleMouseMove :: "(nat \<Rightarrow> nat \<Rightarrow> string) \<Rightarrow> pointer \<Rightarrow> engine \<Rightarrow> engine" where
  "handleMouseMove rnd e s =
     (let s1 = s\<lparr>currentMousePos := Some (coords e)\<rparr>
      in case (dragStartPoint s, startMouseScreenPos s) of
           (Some _, Some start) \<Rightarrow>
             (let dx = clientX e - x start;
                  dy = clientY e - y start
              in if sqrt (dx * dx + dy * dy) > DRAG_THRESHOLD_PX then
                   s1\<lparr>isActuallyDragging := True, dragSnapPoint := nearest rnd s e\<rparr>
                 else s1)
         | _ \<Rightarrow> s1)"

text \<open>
  \<^verbatim>\<open>handleMouseUp\<close>. \<open>now k\<close> is the value of \<^verbatim>\<open>Date.now()\<close> at its \<open>k\<close>-th call site in
  the handler. The board is only rendered while a level is loaded.
\<close>

definition revealIfNew :: "Point list \<Rightarrow> Point \<Rightarrow> string \<Rightarrow> Point list" where
  "revealIfNew newPoints p newId =
     (if find (\<lambda>vp. pointsEqual vp p) newPoints = None then
        newPoints @ [p\<lparr>pid := newId, isIntersection := Some True\<rparr>]
      else newPoints)"

definition handleMouseUp ::
  "LevelConfig \<Rightarrow> (nat \<Rightarrow> nat \<Rightarrow> string) \<Rightarrow> (nat \<Rightarrow> nat) \<Rightarrow> pointer \<Rightarrow> engine \<Rightarrow> engine" where
  "handleMouseUp currentLevel rnd now e s =
     (case dragStartPoint s of
        None \<Rightarrow> resetInteraction s
      | Some dragStart \<Rightarrow>
          (let endPoint = nearest rnd s e
           in resetInteraction
                (if isActuallyDragging s then
                   (case endPoint of
                      None \<Rightarrow> s
                    | Some endP \<Rightarrow>
                        if \<not> pointsEqual dragStart endP then
                          (let lineTy = typeOr (lineType currentLevel);
                               drawn = \<lparr>p1 = dragStart, p2 = endP, type = Some lineTy\<rparr>
                           in if \<not> list_ex (\<lambda>sg. segmentsEqual sg drawn) (segs s) then
                                (let np1 = revealIfNew (visiblePoints s) dragStart
                                             (''revealed-s-'' @ string_of_nat (now 0));
                                     np2 = revealIfNew np1 endP
                                             (''revealed-e-'' @ string_of_nat (now 1))
                                 in commitToHistory np2
                                      (segs s @
                                       [\<lparr>p1 = dragStart, p2 = endP, type = Some lineTy,
                                         sid = ''seg-'' @ string_of_nat (now 2),
                                         sIsInitial = None\<rparr>])
                                      s)
                              else s)
                        else s)
                 else
                   (case nearest rnd s e of
                      None \<Rightarrow> s
                    | Some p \<Rightarrow>
                        if find (\<lambda>vp. pointsEqual vp p) (visiblePoints s) = None then
                          commitToHistory
                            (visiblePoints s @
                             [p\<lparr>pid := ''revealed-'' @ string_of_nat (now 3),
                                isIntersection := Some True\<rparr>])
                            (segs s) s
                        else s))))"

subsection \<open>One user action\<close>

text \<open>
  The actions of the play view. After the handler's updates React renders again and runs
  the goal effect; when that sets the flag, its next run returns at the guard, so one
  application of \<open>goalEffect\<close> reaches the stable state.
\<close>

datatype action =
    MouseDown pointer
  | MouseMove pointer
  | MouseUp "nat \<Rightarrow> nat" pointer
  | MouseLeave
  | Undo
  | Redo
  | Reset

fun handler ::
  "LevelConfig \<Rightarrow> (nat \<Rightarrow> nat \<Rightarrow> string) \<Rightarrow> action \<Rightarrow> engine \<Rightarrow> error + engine" where
  "handler lv rnd (MouseDown e) s = Inr (handleMouseDown rnd e s)"
| "handler lv rnd (MouseMove e) s = Inr (handleMouseMove rnd e s)"
| "handler lv rnd (MouseUp now e) s = Inr (handleMouseUp lv rnd now e s)"
| "handler lv rnd MouseLeave s = Inr (resetInteraction s)"
| "handler lv rnd Undo s = undo s"
| "handler lv rnd Redo s = redo s"
| "handler lv rnd Reset s = Inr (resetLevel (Some lv) s)"

definition step ::
  "LevelConfig \<Rightarrow> (nat \<Rightarrow> nat \<Rightarrow> string) \<Rightarrow> action \<Rightarrow> engine \<Rightarrow> error + engine" where
  "step lv rnd a s =
     (case handler lv rnd a s of
        Inl err \<Rightarrow> Inl err
      | Inr s' \<Rightarrow> Inr (goalEffect (Some lv) s'))"

text \<open>
  The states of a visit of level \<open>lv\<close>: entering the level runs \<open>resetLevel\<close> on whatever
  state the component was in, and every action that does not throw leads to the next state.
\<close>

inductive reachable :: "LevelConfig \<Rightarrow> engine \<Rightarrow> bool" for lv :: LevelConfig where
  enter: "reachable lv (goalEffect (Some lv) (resetLevel (Some lv) s0))"
| act: "reachable lv s \<Longrightarrow> step lv rnd a s = Inr s' \<Longrightarrow> reachable lv s'"

section \<open>Level editor (LevelEditor.tsx)\<close>

text \<open>
  The part of the editor that authors lines: its \<^verbatim>\<open>useState\<close> cells, \<^verbatim>\<open>snap\<close>, the three
  pointer handlers, \<^verbatim>\<open>removeItem\<close>, the mode buttons, and the level that \<^verbatim>\<open>generatedJson\<close>
  serialises. The handlers carry the prefix \<open>LevelEditor_\<close>, since \<^verbatim>\<open>App\<close> has handlers of the
  same names. \<^verbatim>\<open>Math.round(v)\<close> is \<open>\<lfloor>v + 1/2\<rfloor>\<close>.
\<close>

datatype layer = LayerInitial | LayerGoal

datatype shape = ShapePoint | ShapeLine

record editor =
  editLayer :: layer
  editShape :: shape
  edLineType :: LineType
  initialPoints :: "Point list"
  initialSegments :: "Segment list"
  goalPoints :: "Point list"
  goalSegments :: "Segment list"
  dragStart :: "Point option"
  mousePos :: "XY option"

definition initialEditor :: editor where
  "initialEditor =
     \<lparr>editLayer = LayerInitial, editShape = ShapePoint, edLineType = SEGMENT,
      initialPoints = [], initialSegments = [], goalPoints = [], goalSegments = [],
      dragStart = None, mousePos = None\<rparr>"

definition snap :: "real \<Rightarrow> real \<Rightarrow> XY option" where
  "snap gridX gridY =
     (let rx = real_of_int \<lfloor>gridX + 1 / 2\<rfloor>;
          ry = real_of_int \<lfloor>gridY + 1 / 2\<rfloor>
      in if \<bar>gridX - rx\<bar> < SNAP_THRESHOLD \<and> \<bar>gridY - ry\<bar> < SNAP_THRESHOLD
         then Some \<lparr>x = rx, y = ry\<rparr>
         else None)"

definition LevelEditor_handleMouseDown :: "nat \<Rightarrow> XY \<Rightarrow> editor \<Rightarrow> editor" where
  "LevelEditor_handleMouseDown now c s =
     (case snap (x c) (y c) of
        None \<Rightarrow> s
      | Some snapped \<Rightarrow>
          (let p = \<lparr>x = x snapped, y = y snapped, pid = ''p-'' @ string_of_nat now,
                    isIntersection = None, label = None, isInitial = None\<rparr>
           in if editShape s = ShapePoint then
                (if editLayer s = LayerInitial then
                   (if find (\<lambda>ip. pointsEqual ip p) (initialPoints s) = None
                    then s\<lparr>initialPoints := initialPoints s @ [p]\<rparr> else s)
                 else
                   (if find (\<lambda>gp. pointsEqual gp p) (goalPoints s) = None
                    then s\<lparr>goalPoints := goalPoints s @ [p]\<rparr> else s))
              else s\<lparr>dragStart := Some p\<rparr>))"

definition LevelEditor_handleMouseMove :: "XY \<Rightarrow> editor \<Rightarrow> editor" where
  "LevelEditor_handleMouseMove c s = s\<lparr>mousePos := Some c\<rparr>"

definition LevelEditor_handleMouseUp :: "(nat \<Rightarrow> nat) \<Rightarrow> XY \<Rightarrow> editor \<Rightarrow> editor" where
  "LevelEditor_handleMouseUp now c s =
     (let s1 =
        (case dragStart s of
           None \<Rightarrow> s
         | Some d \<Rightarrow>
             if editShape s = ShapeLine then
               (case snap (x c) (y c) of
                  None \<Rightarrow> s
                | Some snapped \<Rightarrow>
                    if \<not> pointsEqual d snapped then
                      (let seg = \<lparr>p1 = d,
                                  p2 = \<lparr>x = x snapped, y = y snapped,
                                        pid = ''p-end-'' @ string_of_nat (now 0),
                                        isIntersection = None, label = None, isInitial = None\<rparr>,
                                  type = Some (edLineType s),
                                  sid = ''s-'' @ string_of_nat (now 1),
                                  sIsInitial = None\<rparr>
                       in if editLayer s = LayerInitial
                          then s\<lparr>initialSegments := initialSegments s @ [seg]\<rparr>
                          else s\<lparr>goalSegments := goalSegments s @ [seg]\<rparr>)
                    else s)
             else s)
      in s1\<lparr>dragStart := None\<rparr>)"

datatype itemKind = IP | IS | GP | GS

definition removeItem :: "itemKind \<Rightarrow> string \<Rightarrow> editor \<Rightarrow> editor" where
  "removeItem kind ident s =
     (case kind of
        IP \<Rightarrow> s\<lparr>initialPoints := filter (\<lambda>p. pid p \<noteq> ident) (initialPoints s)\<rparr>
      | IS \<Rightarrow> s\<lparr>initialSegments := filter (\<lambda>sg. sid sg \<noteq> ident) (initialSegments s)\<rparr>
      | GP \<Rightarrow> s\<lparr>goalPoints := filter (\<lambda>p. pid p \<noteq> ident) (goalPoints s)\<rparr>
      | GS \<Rightarrow> s\<lparr>goalSegments := filter (\<lambda>sg. sid sg \<noteq> ident) (goalSegments s)\<rparr>)"

datatype editorAction =
    EdMouseDown nat XY
  | EdMouseMove XY
  | EdMouseUp "nat \<Rightarrow> nat" XY
  | EdRemove itemKind string
  | EdSetLayer layer
  | EdSetShape shape
  | EdSetLineType LineType

fun editorStep :: "editorAction \<Rightarrow> editor \<Rightarrow> editor" where
  "editorStep (EdMouseDown now c) s = LevelEditor_handleMouseDown now c s"
| "editorStep (EdMouseMove c) s = LevelEditor_handleMouseMove c s"
| "editorStep (EdMouseUp now c) s = LevelEditor_handleMouseUp now c s"
| "editorStep (EdRemove kind ident) s = removeItem kind ident s"
| "editorStep (EdSetLayer l) s = s\<lparr>editLayer := l\<rparr>"
| "editorStep (EdSetShape sh) s = s\<lparr>editShape := sh\<rparr>"
| "editorStep (EdSetLineType ty) s = s\<lparr>edLineType := ty\<rparr>"

inductive editorReachable :: "editor \<Rightarrow> bool" where
  start: "editorReachable initialEditor"
| edit: "editorReachable s \<Longrightarrow> editorReachable (editorStep a s)"

text \<open>
  The \<^verbatim>\<open>LevelConfig\<close> under \<^verbatim>\<open>generatedJson\<close>, for the identifier, title, description and
  default tool typed into the form.
\<close>

definition generatedLevel :: "int \<Rightarrow> string \<Rightarrow> string \<Rightarrow> LineType \<Rightarrow> editor \<Rightarrow> LevelConfig" where
  "generatedLevel levelId ttl descr defaultLineType s =
     \<lparr>lid = levelId, title = ttl, description = descr, lineType = Some defaultLineType,
      initial =
        \<lparr>ipoints = Some (map (\<lambda>p. \<lparr>x = x p, y = y p, ilabel = None\<rparr>) (initialPoints s)),
         isegments = Some (map (\<lambda>sg. \<lparr>p1 = \<lparr>x = x (p1 sg), y = y (p1 sg)\<rparr>,
                                       p2 = \<lparr>x = x (p2 sg), y = y (p2 sg)\<rparr>,
                                       type = type sg\<rparr>) (initialSegments s))\<rparr>,
      goals =
        Some \<lparr>gpoints = Some (map (\<lambda>p. \<lparr>x = x p, y = y p\<rparr>) (goalPoints s)),
              gsegments = Some (map (\<lambda>sg. \<lparr>p1 = \<lparr>x = x (p1 sg), y = y (p1 sg)\<rparr>,
                                            p2 = \<lparr>x = x (p2 sg), y = y (p2 sg)\<rparr>,
                                            type = type sg\<rparr>) (goalSegments s))\<rparr>\<rparr>"

section \<open>Invariants and example inputs\<close>

text \<open>
  The history invariant: the cursor is a valid index into a non-empty stack whose first
  entry is the level's initial configuration as \<open>resetLevel\<close> builds it.
\<close>

definition histInv :: "LevelConfig \<Rightarrow> engine \<Rightarrow> bool" where
  "histInv lv s =
     (0 \<le> historyIndex s \<and> historyIndex s < int (length (history s)) \<and>
      history s \<noteq> [] \<and>
      arrayAt (history s) 0 = Some \<lparr>points = initPoints lv, segments = initSegments lv\<rparr>)"

text \<open>The board cells show the snapshot under the cursor.\<close>

definition synced :: "engine \<Rightarrow> bool" where
  "synced s =
     (case arrayAt (history s) (historyIndex s) of
        None \<Rightarrow> False
      | Some h \<Rightarrow> visiblePoints s = points h \<and> segs s = segments h)"

text \<open>A sequence of actions, stopping at the first one that throws.\<close>

fun run ::
  "LevelConfig \<Rightarrow> (nat \<Rightarrow> nat \<Rightarrow> string) \<Rightarrow> action list \<Rightarrow> engine \<Rightarrow> error + engine" where
  "run lv rnd [] s = Inr s"
| "run lv rnd (a # as) s =
     (case step lv rnd a s of
        Inl err \<Rightarrow> Inl err
      | Inr s' \<Rightarrow> run lv rnd as s')"

text \<open>Concrete inputs for the instances below.\<close>

definition exPoint :: "nat \<Rightarrow> Point" where
  "exPoint k = \<lparr>x = real k, y = 0, pid = ''p'', isIntersection = None, label = None,
                isInitial = None\<rparr>"

definition exSnap :: "nat \<Rightarrow> HistoryState" where
  "exSnap k = \<lparr>points = [exPoint k], segments = []\<rparr>"

definition exHist4 :: engine where
  "exHist4 = initialEngine\<lparr>history := [exSnap 0, exSnap 1, exSnap 2, exSnap 3],
                           historyIndex := 2,
                           visiblePoints := [exPoint 2],
                           segs := []\<rparr>"

definition exGoals :: Goals where
  "exGoals = \<lparr>gpoints = Some [\<lparr>x = 0, y = 0\<rparr>], gsegments = None\<rparr>"

definition exLevel :: LevelConfig where
  "exLevel = \<lparr>lid = 1, title = ''t'', description = ''d'', lineType = None,
              initial = \<lparr>ipoints = None, isegments = None\<rparr>,
              goals = Some exGoals\<rparr>"

definition exRnd :: "nat \<Rightarrow> nat \<Rightarrow> string" where
  "exRnd i j = ''0.5''"

definition exNow :: "nat \<Rightarrow> nat" where
  "exNow k = 0"

definition exPtr :: pointer where
  "exPtr = \<lparr>clientX = 0, clientY = 0, coords = \<lparr>x = 0, y = 0\<rparr>\<rparr>"

definition ex0 :: engine where
  "ex0 = goalEffect (Some exLevel) (resetLevel (Some exLevel) initialEngine)"

definition exEmptyGoals :: Goals where
  "exEmptyGoals = \<lparr>gpoints = Some [], gsegments = Some []\<rparr>"

definition exEmptyGoalLevel :: LevelConfig where
  "exEmptyGoalLevel = \<lparr>lid = 2, title = ''t'', description = ''d'', lineType = None,
                       initial = \<lparr>ipoints = Some [], isegments = Some []\<rparr>,
                       goals = Some exEmptyGoals\<rparr>"

text \<open>
  A visit of \<open>exLevel\<close>: press and release on the grid vertex \<open>(0, 0)\<close> without dragging,
  which reveals that vertex.
\<close>

definition ex1 :: engine where
  "ex1 = goalEffect (Some exLevel) (handleMouseDown exRnd exPtr ex0)"

definition ex2 :: engine where
  "ex2 = goalEffect (Some exLevel) (handleMouseUp exLevel exRnd exNow exPtr ex1)"

section \<open>The kernel's contract in the specification's terms\<close>

text \<open>
  Written from the specification's wording, to be compared with the functions above: the
  determinant of the two direction vectors, the point of a line at a parameter, the
  parameter range of each line type (a missing type counts as \<open>SEGMENT\<close>), the grid with its
  margin, and the quantities that segment equality compares.
\<close>

definition det :: "Segment \<Rightarrow> Segment \<Rightarrow> real" where
  "det A B = (y (p2 B) - y (p1 B)) * (x (p2 A) - x (p1 A))
           - (x (p2 B) - x (p1 B)) * (y (p2 A) - y (p1 A))"

definition alongLine :: "('a XY_scheme, 'm) SegShape_scheme \<Rightarrow> real \<Rightarrow> XY" where
  "alongLine A t = \<lparr>x = x (p1 A) + t * (x (p2 A) - x (p1 A)),
                    y = y (p1 A) + t * (y (p2 A) - y (p1 A))\<rparr>"

definition typeRange :: "LineType option \<Rightarrow> real set" where
  "typeRange ty =
     (case typeOr ty of
        SEGMENT \<Rightarrow> {- EPSILON .. 1 + EPSILON}
      | RAY \<Rightarrow> {- EPSILON ..}
      | LINE \<Rightarrow> UNIV)"

definition inGrid :: "XY \<Rightarrow> bool" where
  "inGrid p = (x p \<in> {0 - EPSILON .. 6 + EPSILON} \<and> y p \<in> {0 - EPSILON .. 6 + EPSILON})"

definition dirX :: "('a XY_scheme, 'm) SegShape_scheme \<Rightarrow> real" where
  "dirX A = x (p2 A) - x (p1 A)"

definition dirY :: "('a XY_scheme, 'm) SegShape_scheme \<Rightarrow> real" where
  "dirY A = y (p2 A) - y (p1 A)"

definition normalizedDot ::
  "('a XY_scheme, 'm) SegShape_scheme \<Rightarrow> ('b XY_scheme, 'n) SegShape_scheme \<Rightarrow> real" where
  "normalizedDot A B =
     (dirX A * dirX B + dirY A * dirY B) /
     (sqrt ((dirX A)\<^sup>2 + (dirY A)\<^sup>2) * sqrt ((dirX B)\<^sup>2 + (dirY B)\<^sup>2))"

definition directionCross ::
  "('a XY_scheme, 'm) SegShape_scheme \<Rightarrow> ('b XY_scheme, 'n) SegShape_scheme \<Rightarrow> real" where
  "directionCross A B = dirX A * dirY B - dirY A * dirX B"

definition signedArea ::
  "('a XY_scheme, 'm) SegShape_scheme \<Rightarrow> 'b XY_scheme \<Rightarrow> real" where
  "signedArea A q = dirX A * (y q - y (p1 A)) - dirY A * (x q - x (p1 A))"

text \<open>Lines for the instances: a point and a line of a given type between two coordinates.\<close>

definition mkPoint :: "real \<Rightarrow> real \<Rightarrow> Point" where
  "mkPoint px py = \<lparr>x = px, y = py, pid = ''q'', isIntersection = None, label = None,
                    isInitial = None\<rparr>"

definition mkLine :: "LineType option \<Rightarrow> real \<Rightarrow> real \<Rightarrow> real \<Rightarrow> real \<Rightarrow> Segment" where
  "mkLine ty ax ay bx by =
     \<lparr>p1 = mkPoint ax ay, p2 = mkPoint bx by, type = ty, sid = ''l'', sIsInitial = None\<rparr>"

text \<open>The criteria of segment equality per type, as the specification words them.\<close>

definition unorderedEndpoints ::
  "('a XY_scheme, 'm) SegShape_scheme \<Rightarrow> ('b XY_scheme, 'n) SegShape_scheme \<Rightarrow> bool" where
  "unorderedEndpoints A B =
     ((pointsEqual (p1 A) (p1 B) \<and> pointsEqual (p2 A) (p2 B)) \<or>
      (pointsEqual (p1 A) (p2 B) \<and> pointsEqual (p2 A) (p1 B)))"

definition sameRay ::
  "('a XY_scheme, 'm) SegShape_scheme \<Rightarrow> ('b XY_scheme, 'n) SegShape_scheme \<Rightarrow> bool" where
  "sameRay A B = (pointsEqual (p1 A) (p1 B) \<and> \<bar>normalizedDot A B - 1\<bar> < EPSILON)"

definition sameLine ::
  "('a XY_scheme, 'm) SegShape_scheme \<Rightarrow> ('b XY_scheme, 'n) SegShape_scheme \<Rightarrow> bool" where
  "sameLine A B = (\<bar>directionCross A B\<bar> \<le> EPSILON \<and> \<bar>signedArea A (p1 B)\<bar> < EPSILON)"

section \<open>The discoverer's contract in the specification's terms\<close>

text \<open>
  A list of points covers a position when it holds a point that \<open>pointsEqual\<close> identifies
  with it; it is separated when no two of its entries are \<open>pointsEqual\<close>. A line crosses
  the vertical gridline \<open>x = k\<close> at parameter \<open>t\<close> when its point at \<open>t\<close> has abscissa \<open>k\<close>,
  \<open>t\<close> is in the range of the line's type and the point is in the grid (with the margin);
  likewise for the horizontal gridline \<open>y = k\<close>.
\<close>

definition covers :: "Point list \<Rightarrow> 'b XY_scheme \<Rightarrow> bool" where
  "covers pts q = (\<exists>p\<in>set pts. pointsEqual p q)"

definition separated :: "Point list \<Rightarrow> bool" where
  "separated pts =
     (\<forall>i<length pts. \<forall>j<length pts. i \<noteq> j \<longrightarrow> \<not> pointsEqual (pts ! i) (pts ! j))"

definition crossesV :: "Segment \<Rightarrow> nat \<Rightarrow> real \<Rightarrow> bool" where
  "crossesV s k t =
     (x (alongLine s t) = real k \<and> t \<in> typeRange (type s) \<and> inGrid (alongLine s t))"

definition crossesH :: "Segment \<Rightarrow> nat \<Rightarrow> real \<Rightarrow> bool" where
  "crossesH s k t =
     (y (alongLine s t) = real k \<and> t \<in> typeRange (type s) \<and> inGrid (alongLine s t))"

text \<open>
  The lists that arise from a list by calls of \<open>addPoint\<close> at positions satisfying \<open>P\<close>.
\<close>

inductive grows :: "(real \<Rightarrow> real \<Rightarrow> bool) \<Rightarrow> Point list \<Rightarrow> Point list \<Rightarrow> bool"
  for P :: "real \<Rightarrow> real \<Rightarrow> bool" and pts :: "Point list" where
  same: "grows P pts pts"
| add: "grows P pts pts' \<Longrightarrow> P px py \<Longrightarrow> grows P pts (addPoint px py src pts')"

text \<open>A near-vertical segment that crosses the gridline \<open>x = 1\<close> at its first endpoint.\<close>

definition exSteep :: Segment where
  "exSteep = mkLine (Some SEGMENT) 1 (1 / 2) (1 + 5 / 100000) (3 / 2)"

text \<open>The bounds test at the head of \<open>addPoint\<close>.\<close>

definition inBounds :: "real \<Rightarrow> real \<Rightarrow> bool" where
  "inBounds px py = (\<not> (px < - EPSILON \<or> px > real GRID_SIZE - 1 + EPSILON \<or>
                        py < - EPSILON \<or> py > real GRID_SIZE - 1 + EPSILON))"

text \<open>Positions on grid vertices, arbitrary positions, and positions on a horizontal gridline.\<close>

definition natCoord :: "real \<Rightarrow> real \<Rightarrow> bool" where
  "natCoord px py = (\<exists>i j. px = real (i::nat) \<and> py = real (j::nat))"

definition anyCoord :: "real \<Rightarrow> real \<Rightarrow> bool" where
  "anyCoord px py = True"

text \<open>The body of the \<^verbatim>\<open>forEach\<close> callback as one function of the accumulated list.\<close>

definition body :: "(nat \<Rightarrow> nat \<Rightarrow> string) \<Rightarrow> Segment list \<Rightarrow> Point list \<Rightarrow> nat \<times> Segment \<Rightarrow> Point list" where
  "body rnd sgs pts e = hLoop (snd e) (vLoop (snd e) (pairLoop rnd sgs (fst e) (snd e) pts))"

text \<open>Two segments that cross at the grid vertex \<open>(1, 1)\<close>.\<close>

definition exCross :: "Segment list" where
  "exCross = [mkLine (Some SEGMENT) 0 0 2 2, mkLine (Some SEGMENT) 0 2 2 0]"

definition natY :: "real \<Rightarrow> real \<Rightarrow> bool" where
  "natY px py = (\<exists>j. py = real (j::nat))"

section \<open>Lines of positive length\<close>

definition nonDegenerate :: "('a XY_scheme, 'm) SegShape_scheme \<Rightarrow> bool" where
  "nonDegenerate sg = (\<not> pointsEqual (p1 sg) (p2 sg))"

definition linesOK :: "engine \<Rightarrow> bool" where
  "linesOK s =
     ((\<forall>h\<in>set (history s). \<forall>sg\<in>set (segments h). nonDegenerate sg) \<and>
      (\<forall>sg\<in>set (segs s). nonDegenerate sg))"

definition editorOK :: "editor \<Rightarrow> bool" where
  "editorOK ed =
     ((\<forall>sg\<in>set (initialSegments ed). nonDegenerate sg) \<and>
      (\<forall>sg\<in>set (goalSegments ed). nonDegenerate sg))"

text \<open>
  Instances: a level with one initial segment, an editor session that draws the segment
  from \<open>(0, 0)\<close> to \<open>(6, 6)\<close>, the same session stopped after the press, the visit of
  \<open>exLevel\<close> continued by a drag that has moved ten pixels away, a visit of \<open>exLevelSeg\<close>
  in which the player drags from the vertex \<open>(0, 0)\<close> to the vertex \<open>(0, 1)\<close>, and a level
  whose JSON holds an initial segment from \<open>(1, 1)\<close> to \<open>(1, 1)\<close>.
\<close>

definition exLevelSeg :: LevelConfig where
  "exLevelSeg = \<lparr>lid = 3, title = ''t'', description = ''d'', lineType = None,
                 initial = \<lparr>ipoints = None,
                            isegments = Some [\<lparr>p1 = \<lparr>x = 0, y = 0\<rparr>, p2 = \<lparr>x = 6, y = 6\<rparr>,
                                               type = None\<rparr>]\<rparr>,
                 goals = Some exGoals\<rparr>"

definition exEdDrag :: editor where
  "exEdDrag = editorStep (EdMouseDown 0 \<lparr>x = 0, y = 0\<rparr>)
                (editorStep (EdSetShape ShapeLine) initialEditor)"

definition exEd :: editor where
  "exEd = editorStep (EdMouseUp exNow \<lparr>x = 6, y = 6\<rparr>) exEdDrag"

definition exPtrFar :: pointer where
  "exPtrFar = \<lparr>clientX = 10, clientY = 0, coords = \<lparr>x = 0, y = 0\<rparr>\<rparr>"

definition ex1d :: engine where
  "ex1d = goalEffect (Some exLevel) (handleMouseMove exRnd exPtrFar ex1)"

definition exS0 :: engine where
  "exS0 = goalEffect (Some exLevelSeg) (resetLevel (Some exLevelSeg) initialEngine)"

definition exGenerated :: LevelConfig where
  "exGenerated = generatedLevel 7 ''t'' ''d'' SEGMENT exEd"

definition exG0 :: engine where
  "exG0 = goalEffect (Some exGenerated) (resetLevel (Some exGenerated) initialEngine)"

definition exPtrUp :: pointer where
  "exPtrUp = \<lparr>clientX = 10, clientY = 0, coords = \<lparr>x = 0, y = 1\<rparr>\<rparr>"

definition exD1 :: engine where
  "exD1 = goalEffect (Some exLevelSeg) (handleMouseDown exRnd exPtr exS0)"

definition exD2 :: engine where
  "exD2 = goalEffect (Some exLevelSeg) (handleMouseMove exRnd exPtrFar exD1)"

definition exD3 :: engine where
  "exD3 = goalEffect (Some exLevelSeg) (handleMouseUp exLevelSeg exRnd exNow exPtrUp exD2)"

definition exBadLevel :: LevelConfig where
  "exBadLevel = \<lparr>lid = 4, title = ''t'', description = ''d'', lineType = None,
                 initial = \<lparr>ipoints = None,
                            isegments = Some [\<lparr>p1 = \<lparr>x = 1, y = 1\<rparr>, p2 = \<lparr>x = 1, y = 1\<rparr>,
                                               type = None\<rparr>]\<rparr>,
                 goals = Some exGoals\<rparr>"

definition exBad0 :: engine where
  "exBad0 = goalEffect (Some exBadLevel) (resetLevel (Some exBadLevel) initialEngine)"

section \<open>History: helper lemmas\<close>

lemma sliceTo_take: "0 \<le> e \<Longrightarrow> sliceTo xs e = take (nat e) xs"
  by (simp add: sliceTo_def)

lemma arrayAt_Some_iff: "arrayAt xs i = Some v \<longleftrightarrow> (0 \<le> i \<and> i < int (length xs) \<and> xs ! nat i = v)"
  by (auto simp: arrayAt_def)

lemma goalEffect_fields [simp]:
  "history (goalEffect cl s) = history s"
  "historyIndex (goalEffect cl s) = historyIndex s"
  "visiblePoints (goalEffect cl s) = visiblePoints s"
  "segs (goalEffect cl s) = segs s"
  "dragStartPoint (goalEffect cl s) = dragStartPoint s"
  "isActuallyDragging (goalEffect cl s) = isActuallyDragging s"
  by (auto simp: goalEffect_def split: option.splits)

lemma resetInteraction_fields [simp]:
  "history (resetInteraction s) = history s"
  "historyIndex (resetInteraction s) = historyIndex s"
  "visiblePoints (resetInteraction s) = visiblePoints s"
  "segs (resetInteraction s) = segs s"
  "isLevelCleared (resetInteraction s) = isLevelCleared s"
  by (simp_all add: resetInteraction_def)

lemma commit_fields [simp]:
  "history (commitToHistory np ns s) = sliceTo (history s) (historyIndex s + 1) @ [\<lparr>points = np, segments = ns\<rparr>]"
  "historyIndex (commitToHistory np ns s) = historyIndex s + 1"
  "visiblePoints (commitToHistory np ns s) = np"
  "segs (commitToHistory np ns s) = ns"
  "isLevelCleared (commitToHistory np ns s) = isLevelCleared s"
  by (simp_all add: commitToHistory_def Let_def)

lemma histInv_reset: "histInv lv (resetLevel (Some lv) s)"
  by (simp add: histInv_def resetLevel_def arrayAt_def)

lemma histInv_commit: "histInv lv s \<Longrightarrow> histInv lv (commitToHistory np ns s)"
  by (auto simp: histInv_def arrayAt_def sliceTo_def nth_append)

lemma undo_total: "histInv lv s \<Longrightarrow> \<exists>s'. undo s = Inr s' \<and> histInv lv s'"
  by (auto simp: histInv_def undo_def arrayAt_def Let_def)

lemma redo_total: "histInv lv s \<Longrightarrow> \<exists>s'. redo s = Inr s' \<and> histInv lv s'"
  by (auto simp: histInv_def redo_def arrayAt_def Let_def)

lemma histInv_cong: "history s' = history s \<Longrightarrow> historyIndex s' = historyIndex s \<Longrightarrow> histInv lv s' = histInv lv s"
  by (simp add: histInv_def)

lemma histInv_goalEffect [simp]: "histInv lv (goalEffect cl s) = histInv lv s"
  by (rule histInv_cong) simp_all

lemma histInv_resetInteraction [simp]: "histInv lv (resetInteraction s) = histInv lv s"
  by (rule histInv_cong) simp_all

lemma histInv_mouseDown: "histInv lv s \<Longrightarrow> histInv lv (handleMouseDown rnd e s)"
  by (auto simp: handleMouseDown_def histInv_def split: option.splits)

lemma histInv_mouseMove: "histInv lv s \<Longrightarrow> histInv lv (handleMouseMove rnd e s)"
  by (auto simp: handleMouseMove_def histInv_def Let_def split: option.splits)

lemma histInv_mouseUp: "histInv lv s \<Longrightarrow> histInv lv (handleMouseUp lv' rnd now e s)"
  by (auto simp: handleMouseUp_def Let_def histInv_commit split: option.splits)

lemma histInv_handler: "histInv lv s \<Longrightarrow> handler lv rnd a s = Inr s' \<Longrightarrow> histInv lv s'"
  using undo_total[of lv s] redo_total[of lv s]
  by (cases a) (auto simp: histInv_mouseDown histInv_mouseMove histInv_mouseUp histInv_reset)

lemma histInv_step: "histInv lv s \<Longrightarrow> step lv rnd a s = Inr s' \<Longrightarrow> histInv lv s'"
  by (auto simp: step_def split: sum.splits dest: histInv_handler)

lemma reachable_histInv: "reachable lv s \<Longrightarrow> histInv lv s"
  by (induction rule: reachable.induct) (auto simp: histInv_reset dest: histInv_step)

lemma synced_reset: "synced (resetLevel (Some lv) s)"
  by (simp add: synced_def resetLevel_def arrayAt_def)

lemma synced_commit: "0 \<le> historyIndex s + 1 \<Longrightarrow> historyIndex s < int (length (history s)) \<Longrightarrow> synced (commitToHistory np ns s)"
  by (auto simp: synced_def arrayAt_def sliceTo_def nth_append)

lemma synced_cong: "history s' = history s \<Longrightarrow> historyIndex s' = historyIndex s \<Longrightarrow> visiblePoints s' = visiblePoints s \<Longrightarrow> segs s' = segs s \<Longrightarrow> synced s' = synced s"
  by (simp add: synced_def split: option.splits)

lemma synced_goalEffect [simp]: "synced (goalEffect cl s) = synced s"
  by (rule synced_cong) simp_all

lemma synced_resetInteraction [simp]: "synced (resetInteraction s) = synced s"
  by (rule synced_cong) simp_all

lemma synced_undo: "histInv lv s \<Longrightarrow> undo s = Inr s' \<Longrightarrow> synced s \<Longrightarrow> synced s'"
  by (auto simp: histInv_def undo_def arrayAt_def Let_def synced_def split: if_splits)

lemma synced_redo: "histInv lv s \<Longrightarrow> redo s = Inr s' \<Longrightarrow> synced s \<Longrightarrow> synced s'"
  by (auto simp: histInv_def redo_def arrayAt_def Let_def synced_def split: if_splits)

lemma synced_mouseDown: "synced s \<Longrightarrow> synced (handleMouseDown rnd e s)"
  by (auto simp: handleMouseDown_def synced_def split: option.splits)

lemma synced_mouseMove: "synced s \<Longrightarrow> synced (handleMouseMove rnd e s)"
  by (auto simp: handleMouseMove_def synced_def Let_def split: option.splits)

lemma synced_mouseUp: "histInv lv s \<Longrightarrow> synced s \<Longrightarrow> synced (handleMouseUp lv' rnd now e s)"
  by (auto simp: handleMouseUp_def Let_def histInv_def intro!: synced_commit split: option.splits)

lemma synced_handler: "histInv lv s \<Longrightarrow> synced s \<Longrightarrow> handler lv rnd a s = Inr s' \<Longrightarrow> synced s'"
  by (cases a) (auto simp: synced_mouseDown synced_mouseMove synced_mouseUp synced_reset synced_undo synced_redo)

lemma synced_step: "histInv lv s \<Longrightarrow> synced s \<Longrightarrow> step lv rnd a s = Inr s' \<Longrightarrow> synced s'"
  by (auto simp: step_def split: sum.splits dest: synced_handler)

lemma reachable_synced: "reachable lv s \<Longrightarrow> synced s"
  by (induction rule: reachable.induct) (auto simp: synced_reset dest: synced_step reachable_histInv)

lemma undo_at_zero: "historyIndex s \<le> 0 \<Longrightarrow> undo s = Inr s"
  by (simp add: undo_def)

lemma redo_at_last: "historyIndex s \<ge> int (length (history s)) - 1 \<Longrightarrow> redo s = Inr s"
  by (simp add: redo_def)

lemma undo_then_redo:
  assumes "0 < historyIndex s" "historyIndex s < int (length (history s))" "synced s"
  shows "\<exists>s1. undo s = Inr s1 \<and> historyIndex s1 = historyIndex s - 1 \<and>
               redo s1 = Inr (s\<lparr>isLevelCleared := False\<rparr>)"
  using assms
  by (auto simp: undo_def redo_def arrayAt_def Let_def synced_def)

lemma commit_shape:
  assumes "- 1 \<le> historyIndex s" "historyIndex s < int (length (history s))"
  shows "history (commitToHistory np ns s) =
           take (nat (historyIndex s + 1)) (history s) @ [\<lparr>points = np, segments = ns\<rparr>]"
    and "historyIndex (commitToHistory np ns s) = int (length (history (commitToHistory np ns s))) - 1"
  using assms by (auto simp: sliceTo_def)

lemma take3_of_4: "length xs = 4 \<Longrightarrow> take 3 xs = [xs ! 0, xs ! 1, xs ! 2]"
  by (cases xs; simp; (rename_tac a as, case_tac as; simp; (rename_tac b bs, case_tac bs; simp; (rename_tac c cs, case_tac cs; simp))))

lemma ex0_fields:
  "history ex0 = [\<lparr>points = [], segments = []\<rparr>]"
  "historyIndex ex0 = 0"
  "visiblePoints ex0 = []"
  "segs ex0 = []"
  by (simp_all add: ex0_def resetLevel_def exLevel_def initPoints_def initSegments_def listOr_def)

lemma exHist4_fields:
  "history exHist4 = [exSnap 0, exSnap 1, exSnap 2, exSnap 3]"
  "historyIndex exHist4 = 2"
  "visiblePoints exHist4 = [exPoint 2]"
  "segs exHist4 = []"
  by (simp_all add: exHist4_def)

section \<open>History: main results\<close>

text \<open>
  C2 (as amended). From a valid cursor (or the empty history of the first render, cursor \<open>-1\<close>),
  \<open>commitToHistory\<close> keeps the snapshots at indices \<open>0..cursor\<close>, appends the new snapshot and
  leaves the cursor on the new last index, so that \<open>redo\<close> does nothing. Starting at index 2
  of a history of 4 snapshots, the history afterwards is the four snapshots (0, 1, 2, new).
\<close>

theorem commit_truncates_and_appends:
  assumes "- 1 \<le> historyIndex s" and "historyIndex s < int (length (history s))"
  shows "history (commitToHistory np ns s) =
           take (nat (historyIndex s + 1)) (history s) @ [\<lparr>points = np, segments = ns\<rparr>] \<and>
         historyIndex (commitToHistory np ns s) =
           int (length (history (commitToHistory np ns s))) - 1 \<and>
         redo (commitToHistory np ns s) = Inr (commitToHistory np ns s) \<and>
         (length (history s) = 4 \<and> historyIndex s = 2 \<longrightarrow>
            history (commitToHistory np ns s) =
              [history s ! 0, history s ! 1, history s ! 2, \<lparr>points = np, segments = ns\<rparr>])"
proof -
  have shape: "history (commitToHistory np ns s) =
      take (nat (historyIndex s + 1)) (history s) @ [\<lparr>points = np, segments = ns\<rparr>]"
    using assms by (rule commit_shape(1))
  have last: "historyIndex (commitToHistory np ns s) =
      int (length (history (commitToHistory np ns s))) - 1"
    using assms by (rule commit_shape(2))
  have noredo: "redo (commitToHistory np ns s) = Inr (commitToHistory np ns s)"
    using last by (intro redo_at_last) simp
  have four: "history (commitToHistory np ns s) =
      [history s ! 0, history s ! 1, history s ! 2, \<lparr>points = np, segments = ns\<rparr>]"
    if "length (history s) = 4 \<and> historyIndex s = 2"
    using that shape take3_of_4[of "history s"] by simp
  from shape last noredo four show ?thesis by blast
qed

theorem commit_truncates_and_appends_witness:
  "- 1 \<le> historyIndex exHist4 \<and> historyIndex exHist4 < int (length (history exHist4)) \<and>
   length (history exHist4) = 4 \<and> historyIndex exHist4 = 2 \<and>
   history (commitToHistory [exPoint 5] [] exHist4) =
     [exSnap 0, exSnap 1, exSnap 2, \<lparr>points = [exPoint 5], segments = []\<rparr>] \<and>
   historyIndex (commitToHistory [exPoint 5] [] exHist4) = 3 \<and>
   redo (commitToHistory [exPoint 5] [] exHist4) = Inr (commitToHistory [exPoint 5] [] exHist4)"
  using commit_truncates_and_appends [of exHist4 "[exPoint 5]" "[]"]
  by (simp add: exHist4_fields)

text \<open>
  C2, the count as stated: after a commit at index 2 of 4 the history holds four snapshots,
  not three.
\<close>

theorem commit_leaves_four_counterexample:
  "length (history exHist4) = 4 \<and> historyIndex exHist4 = 2 \<and>
   length (history (commitToHistory [exPoint 5] [] exHist4)) = 4 \<and>
   length (history (commitToHistory [exPoint 5] [] exHist4)) \<noteq> 3"
  by (simp add: exHist4_fields sliceTo_def)



text \<open>
  C8. \<open>undo\<close> at cursor 0 and \<open>redo\<close> at the last index return the state unchanged. From a
  cursor \<open>i\<close> with \<open>0 < i\<close> inside the history, in a state whose board shows the snapshot
  under the cursor (as every state of a level visit does), \<open>undo\<close> moves to \<open>i - 1\<close> and
  \<open>redo\<close> then returns to \<open>i\<close> with the same history and the same exposed points and lines.
\<close>

theorem undo_redo_inverse:
  "(historyIndex s = 0 \<longrightarrow> undo s = Inr s) \<and>
   (historyIndex s = int (length (history s)) - 1 \<longrightarrow> redo s = Inr s) \<and>
   (0 < historyIndex s \<and> historyIndex s < int (length (history s)) \<and> synced s \<longrightarrow>
      (\<exists>s1 s2. undo s = Inr s1 \<and> redo s1 = Inr s2 \<and>
               historyIndex s1 = historyIndex s - 1 \<and>
               historyIndex s2 = historyIndex s \<and> history s2 = history s \<and>
               visiblePoints s2 = visiblePoints s \<and> segs s2 = segs s))"
proof (intro conjI impI)
  assume "historyIndex s = 0"
  then show "undo s = Inr s" by (simp add: undo_at_zero)
next
  assume "historyIndex s = int (length (history s)) - 1"
  then show "redo s = Inr s" by (simp add: redo_at_last)
next
  assume a: "0 < historyIndex s \<and> historyIndex s < int (length (history s)) \<and> synced s"
  then obtain s1 where s1: "undo s = Inr s1" "historyIndex s1 = historyIndex s - 1"
      "redo s1 = Inr (s\<lparr>isLevelCleared := False\<rparr>)"
    using undo_then_redo[of s] by blast
  show "\<exists>s1 s2. undo s = Inr s1 \<and> redo s1 = Inr s2 \<and>
               historyIndex s1 = historyIndex s - 1 \<and>
               historyIndex s2 = historyIndex s \<and> history s2 = history s \<and>
               visiblePoints s2 = visiblePoints s \<and> segs s2 = segs s"
    using s1 by (intro exI[of _ s1] exI[of _ "s\<lparr>isLevelCleared := False\<rparr>"]) simp
qed

theorem undo_redo_inverse_witness:
  "historyIndex ex0 = 0 \<and> undo ex0 = Inr ex0 \<and>
   historyIndex ex0 = int (length (history ex0)) - 1 \<and> redo ex0 = Inr ex0 \<and>
   0 < historyIndex exHist4 \<and> historyIndex exHist4 < int (length (history exHist4)) \<and>
   synced exHist4 \<and>
   (\<exists>s1 s2. undo exHist4 = Inr s1 \<and> redo s1 = Inr s2 \<and>
            historyIndex s1 = 1 \<and> historyIndex s2 = 2 \<and>
            history s2 = history exHist4 \<and>
            visiblePoints s2 = [exPoint 2] \<and> segs s2 = [])"
proof -
  have sy: "synced exHist4"
    by (simp add: synced_def exHist4_fields arrayAt_def exSnap_def)
  show ?thesis
    using sy undo_redo_inverse [of ex0] undo_redo_inverse [of exHist4]
    by (simp add: ex0_fields exHist4_fields)
qed

section \<open>Goal evaluation: helper lemmas\<close>

lemma clearedVerdict_iff:
  "clearedVerdict g vps sgs \<longleftrightarrow>
     (\<forall>gp\<in>set (listOr (gpoints g)). \<exists>vp\<in>set vps. pointsEqual vp gp) \<and>
     (\<forall>gs\<in>set (listOr (gsegments g)). \<exists>sg\<in>set sgs. segmentsEqual sg gs) \<and>
     (gpoints g \<noteq> None \<or> gsegments g \<noteq> None)"
  by (auto simp: clearedVerdict_def pointsCleared_def segmentsCleared_def listOr_def
        list_all_iff list_ex_iff split: option.splits)

lemma clearedVerdict_mono:
  assumes "clearedVerdict g vps sgs" "set vps \<subseteq> set vps'" "set sgs \<subseteq> set sgs'"
  shows "clearedVerdict g vps' sgs'"
  using assms unfolding clearedVerdict_iff by blast

lemma goalEffect_cleared: "isLevelCleared s \<Longrightarrow> goalEffect cl s = s"
  by (simp add: goalEffect_def split: option.splits)

lemma goalEffect_flag:
  "isLevelCleared (goalEffect (Some lv) s) =
     (isLevelCleared s \<or> (case goals lv of None \<Rightarrow> False
                          | Some g \<Rightarrow> clearedVerdict g (visiblePoints s) (segs s)))"
  by (simp add: goalEffect_def split: option.splits)

lemma flag_mouseDown: "isLevelCleared (handleMouseDown rnd e s) = isLevelCleared s"
  by (simp add: handleMouseDown_def split: option.splits)

lemma flag_mouseMove: "isLevelCleared (handleMouseMove rnd e s) = isLevelCleared s"
  by (simp add: handleMouseMove_def Let_def split: option.splits)

lemma flag_mouseUp: "isLevelCleared (handleMouseUp lv rnd now e s) = isLevelCleared s"
  by (simp add: handleMouseUp_def Let_def split: option.splits)

lemma flag_redo: "redo s = Inr s' \<Longrightarrow> isLevelCleared s' = isLevelCleared s"
  by (auto simp: redo_def Let_def split: if_splits option.splits)

lemma flag_handler:
  "a \<noteq> Undo \<Longrightarrow> a \<noteq> Reset \<Longrightarrow> handler lv rnd a s = Inr s' \<Longrightarrow> isLevelCleared s \<Longrightarrow> isLevelCleared s'"
  by (cases a) (auto simp: flag_mouseDown flag_mouseMove flag_mouseUp flag_redo)

lemma flag_step:
  "a \<noteq> Undo \<Longrightarrow> a \<noteq> Reset \<Longrightarrow> step lv rnd a s = Inr s' \<Longrightarrow> isLevelCleared s \<Longrightarrow> isLevelCleared s'"
  by (auto simp: step_def goalEffect_flag split: sum.splits dest: flag_handler)

lemma flag_run:
  "Undo \<notin> set as \<Longrightarrow> Reset \<notin> set as \<Longrightarrow> run lv rnd as s = Inr s' \<Longrightarrow> isLevelCleared s \<Longrightarrow> isLevelCleared s'"
proof (induction as arbitrary: s)
  case Nil
  then show ?case by simp
next
  case (Cons a as)
  from Cons.prems obtain s1 where s1: "step lv rnd a s = Inr s1" "run lv rnd as s1 = Inr s'"
    by (auto split: sum.splits)
  from Cons.prems have "a \<noteq> Undo" "a \<noteq> Reset" by auto
  with Cons.prems s1 have "isLevelCleared s1" using flag_step[of a lv rnd s s1] by simp
  with Cons s1 show ?case by auto
qed

lemma undo_step_flag:
  assumes "0 < historyIndex s" "step lv rnd Undo s = Inr s'"
  shows "isLevelCleared s' =
           (case goals lv of None \<Rightarrow> False
            | Some g \<Rightarrow> clearedVerdict g (visiblePoints s') (segs s'))"
  using assms
  by (auto simp: step_def undo_def Let_def goalEffect_flag split: sum.splits option.splits if_splits)

lemma undo_step_noop:
  "historyIndex s \<le> 0 \<Longrightarrow> isLevelCleared s \<Longrightarrow> step lv rnd Undo s = Inr s"
  by (simp add: step_def undo_at_zero goalEffect_cleared)

lemma addPoint_nonempty: "pts \<noteq> [] \<Longrightarrow> addPoint px py src pts \<noteq> [] \<and> hd (addPoint px py src pts) = hd pts"
  by (simp add: addPoint_def Let_def)

lemma foldl_keeps_hd:
  assumes "\<And>a k. a \<noteq> [] \<Longrightarrow> f a k \<noteq> [] \<and> hd (f a k) = hd a" "a \<noteq> []"
  shows "foldl f a ks \<noteq> [] \<and> hd (foldl f a ks) = hd a"
  using assms(2)
proof (induction ks arbitrary: a)
  case Nil then show ?case by simp
next
  case (Cons k ks)
  from assms(1)[OF Cons.prems] Cons.IH[of "f a k"] show ?case by simp
qed

lemma gridPoints_hd:
  "gridPoints \<noteq> [] \<and> x (hd gridPoints) = 0 \<and> y (hd gridPoints) = 0"
proof -
  let ?inner = "\<lambda>pts gx. foldl (\<lambda>pts gy. addPoint (real gx) (real gy) ''grid'' pts) pts [0..<GRID_SIZE]"
  have up: "[0..<GRID_SIZE] = 0 # [1..<GRID_SIZE]"
    by (simp add: GRID_SIZE_def upt_conv_Cons)
  have inner_keep: "?inner a gx \<noteq> [] \<and> hd (?inner a gx) = hd a" if "a \<noteq> []" for a gx
    using that by (intro foldl_keeps_hd) (simp_all add: addPoint_nonempty)
  define g0 where "g0 = addPoint 0 0 ''grid'' []"
  have g0: "g0 \<noteq> []" "x (hd g0) = 0" "y (hd g0) = 0"
    by (simp_all add: g0_def addPoint_def EPSILON_def GRID_SIZE_def Let_def)
  define a1 where "a1 = foldl (\<lambda>pts gy. addPoint (real (0::nat)) (real gy) ''grid'' pts) g0 [1..<GRID_SIZE]"
  have a1: "a1 \<noteq> [] \<and> hd a1 = hd g0"
    unfolding a1_def using g0(1) by (intro foldl_keeps_hd) (simp_all add: addPoint_nonempty)
  have "gridPoints = foldl ?inner a1 [1..<GRID_SIZE]"
    by (simp add: gridPoints_def a1_def g0_def up[symmetric]) (simp add: up)
  moreover have "foldl ?inner a1 [1..<GRID_SIZE] \<noteq> [] \<and> hd (foldl ?inner a1 [1..<GRID_SIZE]) = hd a1"
    using a1 by (intro foldl_keeps_hd[where f = ?inner]) (simp_all add: inner_keep)
  ultimately show ?thesis using a1 g0 by simp
qed

lemma foldl_nearest_zero:
  "foldl (\<lambda>(closest, minD) p.
            let d = sqrt (distSq p q)
            in if d < minD then (Some p, d) else (closest, minD)) (c, 0) ps = (c, 0)"
  by (induction ps) (simp_all add: Let_def distSq_def not_sum_power2_lt_zero)

lemma findNearest_hd_exact:
  assumes "cands \<noteq> []" "x (hd cands) = gx" "y (hd cands) = gy"
  shows "findNearestPoint [] cands gx gy = Some (hd cands)"
proof -
  obtain p ps where c: "cands = p # ps" using assms(1) by (cases cands) auto
  have d0: "sqrt (distSq p \<lparr>x = gx, y = gy\<rparr>) = 0"
    using assms c by (simp add: distSq_def)
  show ?thesis
    by (simp add: findNearestPoint_def c d0 SNAP_THRESHOLD_def foldl_nearest_zero)
qed

lemma allDiscoverable_nil: "allDiscoverablePoints rnd [] = gridPoints"
  by (simp add: allDiscoverablePoints_def)

lemma nearest_ex0:
  "nearest exRnd ex0 exPtr = Some (hd gridPoints)"
  using gridPoints_hd
  by (simp add: nearest_def ex0_fields allDiscoverable_nil exPtr_def findNearest_hd_exact)

lemma ex0_flag: "\<not> isLevelCleared ex0" "dragStartPoint ex0 = None"
  by (simp_all add: ex0_def goalEffect_flag resetLevel_def exLevel_def exGoals_def initialEngine_def
      clearedVerdict_def pointsCleared_def initPoints_def listOr_def resetInteraction_def)

lemma ex1_fields:
  "history ex1 = history ex0" "historyIndex ex1 = 0" "visiblePoints ex1 = []" "segs ex1 = []"
  "dragStartPoint ex1 = Some (hd gridPoints)" "\<not> isActuallyDragging ex1" "\<not> isLevelCleared ex1"
  using ex0_flag
  by (simp_all add: ex1_def handleMouseDown_def nearest_ex0 ex0_fields goalEffect_flag exLevel_def
      exGoals_def clearedVerdict_def pointsCleared_def)

lemma nearest_ex1: "nearest exRnd ex1 exPtr = Some (hd gridPoints)"
  using gridPoints_hd
  by (simp add: nearest_def ex1_fields allDiscoverable_nil exPtr_def findNearest_hd_exact)

lemma ex2_fields:
  "historyIndex ex2 = 1" "length (history ex2) = 2" "isLevelCleared ex2"
  "arrayAt (history ex2) 0 = Some \<lparr>points = [], segments = []\<rparr>"
  using gridPoints_hd
  by (simp_all add: ex2_def handleMouseUp_def ex1_fields nearest_ex1 Let_def goalEffect_flag
      exLevel_def exGoals_def clearedVerdict_def pointsCleared_def segmentsCleared_def pointsEqual_def
      EPSILON_def sliceTo_def ex0_fields arrayAt_def)

lemma ex_reachable: "reachable exLevel ex0" "reachable exLevel ex1" "reachable exLevel ex2"
proof -
  show r0: "reachable exLevel ex0" unfolding ex0_def by (rule reachable.enter)
  have "step exLevel exRnd (MouseDown exPtr) ex0 = Inr ex1"
    by (simp add: step_def ex1_def)
  with r0 show r1: "reachable exLevel ex1" by (rule reachable.act)
  have "step exLevel exRnd (MouseUp exNow exPtr) ex1 = Inr ex2"
    by (simp add: step_def ex2_def)
  with r1 show "reachable exLevel ex2" by (rule reachable.act)
qed

lemma ex2_undo:
  "\<not> isl (step exLevel exRnd Undo ex2) \<and> \<not> isLevelCleared (projr (step exLevel exRnd Undo ex2))"
  by (simp add: step_def undo_def ex2_fields Let_def goalEffect_flag exLevel_def exGoals_def
      clearedVerdict_def pointsCleared_def)

lemma ex2_redo: "step exLevel exRnd Redo ex2 = Inr ex2"
  by (simp add: step_def redo_at_last ex2_fields goalEffect_cleared)

section \<open>Goal evaluation: main results\<close>

text \<open>
  C1, at the input where the code leaves the claim. A goal whose two lists are present but
  empty passes the guard \<^verbatim>\<open>goals.points || goals.segments\<close> (an empty array is truthy), and
  both \<^verbatim>\<open>every\<close> tests hold of an empty list: the verdict is true on the empty board, and the
  flag is set as soon as such a level is entered.
\<close>

theorem empty_goal_lists_clear:
  "clearedVerdict exEmptyGoals [] [] \<and>
   isLevelCleared (goalEffect (Some exEmptyGoalLevel)
                     (resetLevel (Some exEmptyGoalLevel) initialEngine))"
  by (simp add: goalEffect_flag exEmptyGoalLevel_def exEmptyGoals_def clearedVerdict_def
      pointsCleared_def segmentsCleared_def)

theorem empty_goal_lists_clear_witness:
  "gpoints exEmptyGoals = Some [] \<and> gsegments exEmptyGoals = Some [] \<and>
   goals exEmptyGoalLevel = Some exEmptyGoals \<and>
   clearedVerdict exEmptyGoals [] [] \<and>
   isLevelCleared (goalEffect (Some exEmptyGoalLevel)
                     (resetLevel (Some exEmptyGoalLevel) initialEngine))"
  using empty_goal_lists_clear by (simp add: exEmptyGoals_def exEmptyGoalLevel_def)

text \<open>
  C9. If the verdict is true for the points \<open>vps\<close> and lines \<open>sgs\<close> of a snapshot, it is true
  for every snapshot that contains all of them (so in particular after appending points or
  lines).
\<close>

theorem goal_clearing_monotonic:
  assumes "clearedVerdict g vps sgs" and "set vps \<subseteq> set vps'" and "set sgs \<subseteq> set sgs'"
  shows "clearedVerdict g vps' sgs'"
  using assms by (rule clearedVerdict_mono)

theorem goal_clearing_monotonic_witness:
  "clearedVerdict exGoals [exPoint 0] [] \<and>
   set [exPoint 0] \<subseteq> set ([exPoint 0] @ [exPoint 3]) \<and>
   clearedVerdict exGoals ([exPoint 0] @ [exPoint 3]) []"
proof -
  have c: "clearedVerdict exGoals [exPoint 0] []"
    by (simp add: clearedVerdict_def pointsCleared_def segmentsCleared_def exGoals_def
        exPoint_def pointsEqual_def EPSILON_def)
  have s: "set [exPoint 0] \<subseteq> set ([exPoint 0] @ [exPoint 3])"
    by simp
  from c s goal_clearing_monotonic [of exGoals "[exPoint 0]" "[]" "[exPoint 0] @ [exPoint 3]" "[]"]
  show ?thesis
    by simp
qed

text \<open>
  C3, as stated, fails: in the visit \<open>ex2\<close> of \<open>exLevel\<close> the revealed vertex \<open>(0, 0)\<close> has
  cleared the level, and \<open>undo\<close> then returns to the empty board with the flag false.
\<close>

theorem undo_unclears_counterexample:
  "reachable exLevel ex2 \<and> isLevelCleared ex2 \<and>
   \<not> isl (step exLevel exRnd Undo ex2) \<and>
   \<not> isLevelCleared (projr (step exLevel exRnd Undo ex2))"
  using ex_reachable(3) ex2_fields(3) ex2_undo by simp

text \<open>
  C3 (as amended). Once the flag is true, no sequence of actions without \<open>Undo\<close> and \<open>Reset\<close>
  (pointer actions, hence commits, and \<open>Redo\<close>) makes it false. An \<open>Undo\<close> that moves the
  cursor resets the flag, and the goal effect then sets it to the verdict on the restored
  snapshot.
\<close>

theorem cleared_sticky_except_undo:
  "(isLevelCleared s \<and> Undo \<notin> set as \<and> Reset \<notin> set as \<and> run lv rnd as s = Inr s'
      \<longrightarrow> isLevelCleared s') \<and>
   (0 < historyIndex s \<and> step lv rnd Undo s = Inr s''
      \<longrightarrow> isLevelCleared s'' =
            (case goals lv of
               None \<Rightarrow> False
             | Some g \<Rightarrow> clearedVerdict g (visiblePoints s'') (segs s'')))"
  using flag_run [of as lv rnd s s'] undo_step_flag [of s lv rnd s''] by blast

theorem cleared_sticky_except_undo_witness:
  "isLevelCleared ex2 \<and> Undo \<notin> set [Redo, MouseLeave] \<and> Reset \<notin> set [Redo, MouseLeave] \<and>
   run exLevel exRnd [Redo, MouseLeave] ex2 = Inr (resetInteraction ex2) \<and>
   isLevelCleared (resetInteraction ex2) \<and>
   0 < historyIndex ex2 \<and>
   step exLevel exRnd Undo ex2 = Inr (projr (step exLevel exRnd Undo ex2)) \<and>
   isLevelCleared (projr (step exLevel exRnd Undo ex2)) =
     clearedVerdict exGoals (visiblePoints (projr (step exLevel exRnd Undo ex2)))
                            (segs (projr (step exLevel exRnd Undo ex2)))"
proof -
  have l: "step exLevel exRnd MouseLeave ex2 = Inr (resetInteraction ex2)"
    using ex2_fields(3) by (simp add: step_def goalEffect_cleared)
  have r: "run exLevel exRnd [Redo, MouseLeave] ex2 = Inr (resetInteraction ex2)"
    by (simp add: ex2_redo l)
  have u: "step exLevel exRnd Undo ex2 = Inr (projr (step exLevel exRnd Undo ex2))"
    using ex2_undo by (cases "step exLevel exRnd Undo ex2") simp_all
  have g: "goals exLevel = Some exGoals"
    by (simp add: exLevel_def)
  show ?thesis
    using r u g ex2_fields(1,3)
      cleared_sticky_except_undo [of ex2 "[Redo, MouseLeave]" exLevel exRnd
        "resetInteraction ex2" "projr (step exLevel exRnd Undo ex2)"]
    by simp
qed

section \<open>Geometry kernel: helper lemmas\<close>

lemma solve_2x2:
  fixes a b c e p q t u :: real
  assumes d: "e * a - c * b \<noteq> 0"
  shows "(p + t * a = u * c \<and> q + t * b = u * e) \<longleftrightarrow>
         (t = (c * q - e * p) / (e * a - c * b) \<and> u = (a * q - b * p) / (e * a - c * b))"
proof
  assume eq: "p + t * a = u * c \<and> q + t * b = u * e"
  have "t * (e * a - c * b) = e * (u * c - p) - c * (u * e - q)"
    using eq by algebra
  then have t: "t * (e * a - c * b) = c * q - e * p" by algebra
  have "u * (e * a - c * b) = a * (q + t * b) - b * (p + t * a)"
    using eq by algebra
  then have u: "u * (e * a - c * b) = a * q - b * p" by algebra
  from t u d show "t = (c * q - e * p) / (e * a - c * b) \<and> u = (a * q - b * p) / (e * a - c * b)"
    by (simp add: eq_divide_eq)
next
  assume s: "t = (c * q - e * p) / (e * a - c * b) \<and> u = (a * q - b * p) / (e * a - c * b)"
  then have t: "t * (e * a - c * b) = c * q - e * p" and u: "u * (e * a - c * b) = a * q - b * p"
    using d by (simp_all add: field_simps)
  have "(p + t * a) * (e * a - c * b) = (u * c) * (e * a - c * b)"
    using t u by algebra
  moreover have "(q + t * b) * (e * a - c * b) = (u * e) * (e * a - c * b)"
    using t u by algebra
  ultimately show "p + t * a = u * c \<and> q + t * b = u * e"
    using d by simp
qed


lemma checkConstraint_typeRange: "checkConstraint t ty \<longleftrightarrow> t \<in> typeRange ty"
  by (cases "(t, ty)" rule: checkConstraint.cases) (auto simp: typeRange_def typeOr_def)

lemma alongLine_eq_iff:
  "alongLine A t = alongLine B u \<longleftrightarrow>
     ((x (p1 A) - x (p1 B)) + t * (x (p2 A) - x (p1 A)) = u * (x (p2 B) - x (p1 B)) \<and>
      (y (p1 A) - y (p1 B)) + t * (y (p2 A) - y (p1 A)) = u * (y (p2 B) - y (p1 B)))"
  by (auto simp: alongLine_def algebra_simps)

lemma getIntersection_parallel: "\<bar>det A B\<bar> < EPSILON \<Longrightarrow> getIntersection A B r = None"
  by (simp add: getIntersection_def det_def Let_def)

lemma getIntersection_solution:
  assumes nd: "\<not> \<bar>det A B\<bar> < EPSILON"
  defines "t \<equiv> ((x (p2 B) - x (p1 B)) * (y (p1 A) - y (p1 B))
                 - (y (p2 B) - y (p1 B)) * (x (p1 A) - x (p1 B))) / det A B"
    and "u \<equiv> ((x (p2 A) - x (p1 A)) * (y (p1 A) - y (p1 B))
                 - (y (p2 A) - y (p1 A)) * (x (p1 A) - x (p1 B))) / det A B"
  shows "(\<forall>t' u'. (alongLine A t' = alongLine B u') = (t' = t \<and> u' = u))"
    and "getIntersection A B r =
           (if t \<in> typeRange (type A) \<and> u \<in> typeRange (type B) \<and> inGrid (alongLine A t)
            then Some \<lparr>x = x (alongLine A t), y = y (alongLine A t), pid = ''int-'' @ r,
                       isIntersection = Some True, label = None, isInitial = None\<rparr>
            else None)"
proof -
  have d0: "det A B \<noteq> 0"
    using nd by (auto simp: EPSILON_def)
  then have d0': "(y (p2 B) - y (p1 B)) * (x (p2 A) - x (p1 A))
                - (x (p2 B) - x (p1 B)) * (y (p2 A) - y (p1 A)) \<noteq> 0"
    by (simp add: det_def)
  show "\<forall>t' u'. (alongLine A t' = alongLine B u') = (t' = t \<and> u' = u)"
    unfolding alongLine_eq_iff t_def u_def det_def
    using solve_2x2 [OF d0'] by blast
  show "getIntersection A B r =
           (if t \<in> typeRange (type A) \<and> u \<in> typeRange (type B) \<and> inGrid (alongLine A t)
            then Some \<lparr>x = x (alongLine A t), y = y (alongLine A t), pid = ''int-'' @ r,
                       isIntersection = Some True, label = None, isInitial = None\<rparr>
            else None)"
    using nd
    by (simp add: getIntersection_def Let_def checkConstraint_typeRange inGrid_def alongLine_def
        GRID_MIN_def GRID_MAX_def t_def u_def det_def)
qed

lemma typeOr_RAY: "typeOr ty = RAY \<longleftrightarrow> ty = Some RAY"
  by (cases ty) (auto simp: typeOr_def)

lemma segEq_types_differ: "typeOr (type A) \<noteq> typeOr (type B) \<Longrightarrow> \<not> segmentsEqual A B"
  by (simp add: segmentsEqual_def)

lemma segEq_segment:
  "typeOr (type A) = SEGMENT \<Longrightarrow> typeOr (type B) = SEGMENT \<Longrightarrow>
   segmentsEqual A B = unorderedEndpoints A B"
  by (simp add: segmentsEqual_def unorderedEndpoints_def)

lemma segEq_ray:
  assumes "typeOr (type A) = RAY" "typeOr (type B) = RAY"
  shows "segmentsEqual A B = sameRay A B"
proof -
  have ra: "type A = Some RAY" using assms(1) by (simp add: typeOr_RAY)
  show ?thesis
    using assms
    by (auto simp: segmentsEqual_def sameRay_def normalizedDot_def dirX_def dirY_def Let_def ra
        EPSILON_def)
qed

lemma segEq_line:
  assumes "typeOr (type A) = LINE" "typeOr (type B) = LINE"
  shows "segmentsEqual A B = sameLine A B"
proof -
  have ra: "type A \<noteq> Some RAY" using assms(1) by (auto simp: typeOr_def)
  show ?thesis
    using assms
    by (auto simp: segmentsEqual_def sameLine_def directionCross_def signedArea_def dirX_def
        dirY_def Let_def ra)
qed

lemma normalizedDot_scaled:
  assumes "dirX B = k * dirX A" "dirY B = k * dirY A" "k \<noteq> 0" "dirX A \<noteq> 0 \<or> dirY A \<noteq> 0"
  shows "normalizedDot A B = sgn k"
proof -
  define n where "n = (dirX A)\<^sup>2 + (dirY A)\<^sup>2"
  have npos: "0 < n"
    using assms(4) by (auto simp: n_def sum_power2_gt_zero_iff)
  have nb: "(dirX B)\<^sup>2 + (dirY B)\<^sup>2 = k\<^sup>2 * n"
    by (simp add: assms n_def power_mult_distrib algebra_simps)
  have "sqrt n * sqrt (k\<^sup>2 * n) = \<bar>k\<bar> * n"
    using npos by (simp add: real_sqrt_mult)
  moreover have "dirX A * dirX B + dirY A * dirY B = k * n"
    by (simp add: assms n_def power2_eq_square algebra_simps)
  ultimately have "normalizedDot A B = (k * n) / (\<bar>k\<bar> * n)"
    by (simp add: normalizedDot_def nb n_def[symmetric])
  also have "\<dots> = sgn k"
    using npos assms(3) by (simp add: sgn_real_def)
  finally show ?thesis .
qed

lemma normalizedDot_degenerate:
  "dirX A = 0 \<and> dirY A = 0 \<Longrightarrow> normalizedDot A B = 0"
  by (simp add: normalizedDot_def)

lemma ray_opposite:
  assumes "typeOr (type A) = RAY" "typeOr (type B) = RAY"
    and "dirX B = - k * dirX A" "dirY B = - k * dirY A" "0 < k"
  shows "\<not> segmentsEqual A B"
proof (cases "dirX A \<noteq> 0 \<or> dirY A \<noteq> 0")
  case True
  have "normalizedDot A B = sgn (- k)"
    using assms True by (intro normalizedDot_scaled) simp_all
  then have "normalizedDot A B = - 1" using assms(5) by simp
  then show ?thesis
    by (simp add: segEq_ray assms sameRay_def EPSILON_def)
next
  case False
  then have "normalizedDot A B = 0" by (simp add: normalizedDot_degenerate)
  then show ?thesis
    by (simp add: segEq_ray assms sameRay_def EPSILON_def)
qed

lemma ray_same_direction:
  assumes "typeOr (type A) = RAY" "typeOr (type B) = RAY"
    and "dirX B = k * dirX A" "dirY B = k * dirY A" "0 < k" "dirX A \<noteq> 0 \<or> dirY A \<noteq> 0"
  shows "segmentsEqual A B = pointsEqual (p1 A) (p1 B)"
proof -
  have "normalizedDot A B = sgn k"
    using assms by (intro normalizedDot_scaled) simp_all
  then have "normalizedDot A B = 1" using assms(5) by simp
  then show ?thesis
    by (simp add: segEq_ray assms sameRay_def EPSILON_def)
qed

lemmas ex_line_simps = mkLine_def mkPoint_def typeOr_def dirX_def dirY_def pointsEqual_def
  EPSILON_def

section \<open>Geometry kernel: main results\<close>

text \<open>
  C4. When the determinant is below \<open>EPSILON\<close> in absolute value, \<open>getIntersection\<close> returns
  nothing. Otherwise the two supporting lines meet at exactly one pair of parameters
  \<open>(t, u)\<close>, and \<open>getIntersection\<close> returns the point of \<open>A\<close> at \<open>t\<close>, tagged
  \<open>isIntersection = true\<close>, exactly when \<open>t\<close> is in the range of \<open>A\<close>'s type, \<open>u\<close> in the range
  of \<open>B\<close>'s type, and the point lies in \<open>[0, 6] \<times> [0, 6]\<close> widened by \<open>EPSILON\<close>; in every
  other case it returns nothing.
\<close>

theorem getIntersection_contract:
  "(\<bar>det A B\<bar> < EPSILON \<longrightarrow> getIntersection A B r = None) \<and>
   (\<not> \<bar>det A B\<bar> < EPSILON \<longrightarrow>
      (\<exists>t u. (\<forall>t' u'. (alongLine A t' = alongLine B u') = (t' = t \<and> u' = u)) \<and>
             getIntersection A B r =
               (if t \<in> typeRange (type A) \<and> u \<in> typeRange (type B) \<and> inGrid (alongLine A t)
                then Some \<lparr>x = x (alongLine A t), y = y (alongLine A t), pid = ''int-'' @ r,
                           isIntersection = Some True, label = None, isInitial = None\<rparr>
                else None)))"
proof (intro conjI impI)
  assume "\<bar>det A B\<bar> < EPSILON"
  then show "getIntersection A B r = None" by (rule getIntersection_parallel)
next
  assume nd: "\<not> \<bar>det A B\<bar> < EPSILON"
  show "\<exists>t u. (\<forall>t' u'. (alongLine A t' = alongLine B u') = (t' = t \<and> u' = u)) \<and>
             getIntersection A B r =
               (if t \<in> typeRange (type A) \<and> u \<in> typeRange (type B) \<and> inGrid (alongLine A t)
                then Some \<lparr>x = x (alongLine A t), y = y (alongLine A t), pid = ''int-'' @ r,
                           isIntersection = Some True, label = None, isInitial = None\<rparr>
                else None)"
    by (rule exI, rule exI, rule conjI, rule getIntersection_solution(1) [OF nd],
        rule getIntersection_solution(2) [OF nd])
qed

theorem getIntersection_contract_witness:
  "\<bar>det (mkLine (Some SEGMENT) 0 0 2 2) (mkLine (Some SEGMENT) 1 0 3 2)\<bar> < EPSILON \<and>
   getIntersection (mkLine (Some SEGMENT) 0 0 2 2) (mkLine (Some SEGMENT) 1 0 3 2) ''r'' = None \<and>
   \<not> \<bar>det (mkLine (Some SEGMENT) 0 0 2 2) (mkLine (Some SEGMENT) 0 2 2 0)\<bar> < EPSILON \<and>
   alongLine (mkLine (Some SEGMENT) 0 0 2 2) (1 / 2) = alongLine (mkLine (Some SEGMENT) 0 2 2 0) (1 / 2) \<and>
   getIntersection (mkLine (Some SEGMENT) 0 0 2 2) (mkLine (Some SEGMENT) 0 2 2 0) ''r'' =
     Some \<lparr>x = 1, y = 1, pid = ''int-r'', isIntersection = Some True, label = None,
            isInitial = None\<rparr>"
proof -
  let ?A = "mkLine (Some SEGMENT) 0 0 2 2"
  let ?B = "mkLine (Some SEGMENT) 0 2 2 0"
  let ?P = "mkLine (Some SEGMENT) 1 0 3 2"
  have par: "\<bar>det ?A ?P\<bar> < EPSILON"
    by (simp add: det_def mkLine_def mkPoint_def EPSILON_def)
  have npar: "\<not> \<bar>det ?A ?B\<bar> < EPSILON"
    by (simp add: det_def mkLine_def mkPoint_def EPSILON_def)
  have half: "alongLine ?A (1 / 2) = alongLine ?B (1 / 2)"
    by (simp add: alongLine_def mkLine_def mkPoint_def)
  from npar getIntersection_contract [of ?A ?B "''r''"]
  obtain t u where tu: "\<forall>t' u'. (alongLine ?A t' = alongLine ?B u') = (t' = t \<and> u' = u)"
    and res: "getIntersection ?A ?B ''r'' =
               (if t \<in> typeRange (type ?A) \<and> u \<in> typeRange (type ?B) \<and> inGrid (alongLine ?A t)
                then Some \<lparr>x = x (alongLine ?A t), y = y (alongLine ?A t), pid = ''int-'' @ ''r'',
                           isIntersection = Some True, label = None, isInitial = None\<rparr>
                else None)"
    by blast
  note tu [THEN spec [where x = "1 / 2"], THEN spec [where x = "1 / 2"]]
  with half have t: "t = 1 / 2" and u: "u = 1 / 2" by simp_all
  have "getIntersection ?A ?B ''r'' =
     Some \<lparr>x = 1, y = 1, pid = ''int-r'', isIntersection = Some True, label = None,
            isInitial = None\<rparr>"
    unfolding res t u
    by (simp add: typeRange_def typeOr_def inGrid_def alongLine_def mkLine_def mkPoint_def EPSILON_def)
  with par npar half getIntersection_contract [of ?A ?P "''r''"] show ?thesis
    by simp
qed

text \<open>
  C5. \<open>segmentsEqual\<close> is false when the types (a missing one read as \<open>SEGMENT\<close>) differ; for
  two segments it is equality of the endpoints in either order; for two rays it is equality
  of the origins together with a normalized dot product within \<open>EPSILON\<close> of 1, so that a ray
  in the opposite direction (a negative multiple of the direction) is never equal, and a ray
  in the same direction (a positive multiple) is equal as soon as the origins are; for two
  lines it is a direction cross product of at most \<open>EPSILON\<close> together with a signed area of
  \<open>B\<close>'s first point below \<open>EPSILON\<close>, whatever the endpoints.
\<close>

theorem segmentsEqual_contract:
  "(typeOr (type A) \<noteq> typeOr (type B) \<longrightarrow> \<not> segmentsEqual A B) \<and>
   (typeOr (type A) = SEGMENT \<and> typeOr (type B) = SEGMENT \<longrightarrow>
      segmentsEqual A B = unorderedEndpoints A B) \<and>
   (typeOr (type A) = RAY \<and> typeOr (type B) = RAY \<longrightarrow>
      segmentsEqual A B = sameRay A B) \<and>
   (typeOr (type A) = RAY \<and> typeOr (type B) = RAY \<and> 0 < k \<and>
    dirX B = - k * dirX A \<and> dirY B = - k * dirY A \<longrightarrow>
      \<not> segmentsEqual A B) \<and>
   (typeOr (type A) = RAY \<and> typeOr (type B) = RAY \<and> 0 < k \<and>
    dirX B = k * dirX A \<and> dirY B = k * dirY A \<and> (dirX A \<noteq> 0 \<or> dirY A \<noteq> 0) \<longrightarrow>
      segmentsEqual A B = pointsEqual (p1 A) (p1 B)) \<and>
   (typeOr (type A) = LINE \<and> typeOr (type B) = LINE \<longrightarrow>
      segmentsEqual A B = sameLine A B)"
proof (intro conjI impI)
  assume "typeOr (type A) \<noteq> typeOr (type B)"
  then show "\<not> segmentsEqual A B" by (rule segEq_types_differ)
next
  assume "typeOr (type A) = SEGMENT \<and> typeOr (type B) = SEGMENT"
  then show "segmentsEqual A B = unorderedEndpoints A B" by (simp add: segEq_segment)
next
  assume "typeOr (type A) = RAY \<and> typeOr (type B) = RAY"
  then show "segmentsEqual A B = sameRay A B" by (simp add: segEq_ray)
next
  assume "typeOr (type A) = RAY \<and> typeOr (type B) = RAY \<and> 0 < k \<and>
    dirX B = - k * dirX A \<and> dirY B = - k * dirY A"
  then show "\<not> segmentsEqual A B" using ray_opposite [of A B k] by blast
next
  assume "typeOr (type A) = RAY \<and> typeOr (type B) = RAY \<and> 0 < k \<and>
    dirX B = k * dirX A \<and> dirY B = k * dirY A \<and> (dirX A \<noteq> 0 \<or> dirY A \<noteq> 0)"
  then show "segmentsEqual A B = pointsEqual (p1 A) (p1 B)"
    using ray_same_direction [of A B k] by blast
next
  assume "typeOr (type A) = LINE \<and> typeOr (type B) = LINE"
  then show "segmentsEqual A B = sameLine A B" by (simp add: segEq_line)
qed

theorem segmentsEqual_contract_witness:
  "typeOr (type (mkLine None 0 0 6 6)) \<noteq> typeOr (type (mkLine (Some LINE) 0 0 6 6)) \<and>
   \<not> segmentsEqual (mkLine None 0 0 6 6) (mkLine (Some LINE) 0 0 6 6) \<and>
   typeOr (type (mkLine None 0 0 3 3)) = SEGMENT \<and>
   typeOr (type (mkLine (Some SEGMENT) 3 3 0 0)) = SEGMENT \<and>
   segmentsEqual (mkLine None 0 0 3 3) (mkLine (Some SEGMENT) 3 3 0 0) \<and>
   typeOr (type (mkLine (Some RAY) 1 1 3 3)) = RAY \<and>
   typeOr (type (mkLine (Some RAY) 1 1 0 0)) = RAY \<and> (0::real) < 1 / 2 \<and>
   dirX (mkLine (Some RAY) 1 1 0 0) = - (1 / 2) * dirX (mkLine (Some RAY) 1 1 3 3) \<and>
   dirY (mkLine (Some RAY) 1 1 0 0) = - (1 / 2) * dirY (mkLine (Some RAY) 1 1 3 3) \<and>
   pointsEqual (p1 (mkLine (Some RAY) 1 1 3 3)) (p1 (mkLine (Some RAY) 1 1 0 0)) \<and>
   \<not> segmentsEqual (mkLine (Some RAY) 1 1 3 3) (mkLine (Some RAY) 1 1 0 0) \<and>
   \<not> sameRay (mkLine (Some RAY) 1 1 3 3) (mkLine (Some RAY) 1 1 0 0) \<and>
   typeOr (type (mkLine (Some RAY) 1 1 2 2)) = RAY \<and>
   dirX (mkLine (Some RAY) 1 1 2 2) = (1 / 2) * dirX (mkLine (Some RAY) 1 1 3 3) \<and>
   dirY (mkLine (Some RAY) 1 1 2 2) = (1 / 2) * dirY (mkLine (Some RAY) 1 1 3 3) \<and>
   dirX (mkLine (Some RAY) 1 1 3 3) \<noteq> 0 \<and>
   segmentsEqual (mkLine (Some RAY) 1 1 3 3) (mkLine (Some RAY) 1 1 2 2) \<and>
   typeOr (type (mkLine (Some LINE) 0 0 1 1)) = LINE \<and>
   typeOr (type (mkLine (Some LINE) 2 2 3 3)) = LINE \<and>
   segmentsEqual (mkLine (Some LINE) 0 0 1 1) (mkLine (Some LINE) 2 2 3 3) \<and>
   \<not> unorderedEndpoints (mkLine (Some LINE) 0 0 1 1) (mkLine (Some LINE) 2 2 3 3)"
proof -
  have ty: "typeOr (type (mkLine None 0 0 6 6)) \<noteq> typeOr (type (mkLine (Some LINE) 0 0 6 6))"
    "typeOr (type (mkLine None 0 0 3 3)) = SEGMENT"
    "typeOr (type (mkLine (Some SEGMENT) 3 3 0 0)) = SEGMENT"
    "typeOr (type (mkLine (Some RAY) 1 1 3 3)) = RAY"
    "typeOr (type (mkLine (Some RAY) 1 1 0 0)) = RAY"
    "typeOr (type (mkLine (Some RAY) 1 1 2 2)) = RAY"
    "typeOr (type (mkLine (Some LINE) 0 0 1 1)) = LINE"
    "typeOr (type (mkLine (Some LINE) 2 2 3 3)) = LINE"
    by (simp_all add: mkLine_def typeOr_def)
  have dirs: "dirX (mkLine (Some RAY) 1 1 0 0) = - (1 / 2) * dirX (mkLine (Some RAY) 1 1 3 3)"
    "dirY (mkLine (Some RAY) 1 1 0 0) = - (1 / 2) * dirY (mkLine (Some RAY) 1 1 3 3)"
    "dirX (mkLine (Some RAY) 1 1 2 2) = (1 / 2) * dirX (mkLine (Some RAY) 1 1 3 3)"
    "dirY (mkLine (Some RAY) 1 1 2 2) = (1 / 2) * dirY (mkLine (Some RAY) 1 1 3 3)"
    "dirX (mkLine (Some RAY) 1 1 3 3) \<noteq> 0"
    by (simp_all add: ex_line_simps)
  have pe: "pointsEqual (p1 (mkLine (Some RAY) 1 1 3 3)) (p1 (mkLine (Some RAY) 1 1 0 0))"
    "pointsEqual (p1 (mkLine (Some RAY) 1 1 3 3)) (p1 (mkLine (Some RAY) 1 1 2 2))"
    by (simp_all add: ex_line_simps)
  have seg: "unorderedEndpoints (mkLine None 0 0 3 3) (mkLine (Some SEGMENT) 3 3 0 0)"
    by (simp add: unorderedEndpoints_def ex_line_simps)
  have lin: "sameLine (mkLine (Some LINE) 0 0 1 1) (mkLine (Some LINE) 2 2 3 3)"
    "\<not> unorderedEndpoints (mkLine (Some LINE) 0 0 1 1) (mkLine (Some LINE) 2 2 3 3)"
    by (simp_all add: sameLine_def directionCross_def signedArea_def unorderedEndpoints_def
        ex_line_simps)
  have half: "(0::real) < 1 / 2" by simp
  have a1: "\<not> segmentsEqual (mkLine None 0 0 6 6) (mkLine (Some LINE) 0 0 6 6)"
    using ty(1) segmentsEqual_contract [of "mkLine None 0 0 6 6" "mkLine (Some LINE) 0 0 6 6" 1]
    by blast
  have a2: "segmentsEqual (mkLine None 0 0 3 3) (mkLine (Some SEGMENT) 3 3 0 0)"
    using ty(2,3) seg
      segmentsEqual_contract [of "mkLine None 0 0 3 3" "mkLine (Some SEGMENT) 3 3 0 0" 1]
    by blast
  have a3: "\<not> segmentsEqual (mkLine (Some RAY) 1 1 3 3) (mkLine (Some RAY) 1 1 0 0)"
    using ty(4,5) dirs(1,2) half
      segmentsEqual_contract [of "mkLine (Some RAY) 1 1 3 3" "mkLine (Some RAY) 1 1 0 0" "1 / 2"]
    by blast
  have a3': "\<not> sameRay (mkLine (Some RAY) 1 1 3 3) (mkLine (Some RAY) 1 1 0 0)"
    using ty(4,5) a3
      segmentsEqual_contract [of "mkLine (Some RAY) 1 1 3 3" "mkLine (Some RAY) 1 1 0 0" "1 / 2"]
    by blast
  have a4: "segmentsEqual (mkLine (Some RAY) 1 1 3 3) (mkLine (Some RAY) 1 1 2 2)"
    using ty(4,6) dirs(3,4,5) half pe(2)
      segmentsEqual_contract [of "mkLine (Some RAY) 1 1 3 3" "mkLine (Some RAY) 1 1 2 2" "1 / 2"]
    by blast
  have a5: "segmentsEqual (mkLine (Some LINE) 0 0 1 1) (mkLine (Some LINE) 2 2 3 3)"
    using ty(7,8) lin(1)
      segmentsEqual_contract [of "mkLine (Some LINE) 0 0 1 1" "mkLine (Some LINE) 2 2 3 3" 1]
    by blast
  show ?thesis
    by (intro conjI ty dirs pe(1) lin(2) half a1 a2 a3 a3' a4 a5)
qed

section \<open>Discoverable points: helper lemmas\<close>

lemma pointsEqual_sym: "pointsEqual a b = pointsEqual b a"
  by (auto simp: pointsEqual_def abs_minus_commute)

lemma pointsEqual_same: "x a = x b \<Longrightarrow> y a = y b \<Longrightarrow> pointsEqual a b"
  by (simp add: pointsEqual_def EPSILON_def)

lemma pointsEqual_coords:
  "x a = x a' \<Longrightarrow> y a = y a' \<Longrightarrow> x b = x b' \<Longrightarrow> y b = y b' \<Longrightarrow>
   pointsEqual a b = pointsEqual a' b'"
  by (simp add: pointsEqual_def)

lemma covers_coords: "x q = x q' \<Longrightarrow> y q = y q' \<Longrightarrow> covers pts q = covers pts q'"
  unfolding covers_def using pointsEqual_coords [OF refl refl] by blast

lemma covers_mono: "set pts \<subseteq> set pts' \<Longrightarrow> covers pts q \<Longrightarrow> covers pts' q"
  by (auto simp: covers_def)

lemma find_None_covers: "(find (\<lambda>e. pointsEqual e q) pts = None) = (\<not> covers pts q)"
  by (auto simp: find_None_iff covers_def)

lemma addPoint_cases:
  "addPoint px py src pts =
     (if inBounds px py \<and> \<not> covers pts \<lparr>x = px, y = py\<rparr>
      then pts @ [\<lparr>x = px, y = py,
                   pid = ''potential-'' @ src @ ''-'' @ string_of_nat (length pts),
                   isIntersection = Some True, label = None, isInitial = None\<rparr>]
      else pts)"
  by (simp add: addPoint_def inBounds_def Let_def find_None_covers)

lemma addPoint_subset: "set pts \<subseteq> set (addPoint px py src pts)"
  by (auto simp: addPoint_cases)

lemma addPoint_covered: "covers pts \<lparr>x = px, y = py\<rparr> \<Longrightarrow> addPoint px py src pts = pts"
  by (simp add: addPoint_cases)

lemma addPoint_covers: "inBounds px py \<Longrightarrow> covers (addPoint px py src pts) \<lparr>x = px, y = py\<rparr>"
  by (auto simp: addPoint_cases covers_def pointsEqual_same)

lemma separated_snoc:
  assumes "separated pts" "\<not> covers pts n"
  shows "separated (pts @ [n])"
  unfolding separated_def
proof (intro allI impI)
  fix i j assume ij: "i < length (pts @ [n])" "j < length (pts @ [n])" "i \<noteq> j"
  have nc: "\<And>k. k < length pts \<Longrightarrow> \<not> pointsEqual (pts ! k) n"
    using assms(2) by (auto simp: covers_def)
  consider "i < length pts" "j < length pts" | "i < length pts" "j = length pts"
    | "i = length pts" "j < length pts"
    using ij by (auto simp: less_Suc_eq)
  then show "\<not> pointsEqual ((pts @ [n]) ! i) ((pts @ [n]) ! j)"
  proof cases
    case 1 then show ?thesis using assms(1) ij(3) by (simp add: separated_def nth_append)
  next
    case 2 then show ?thesis using nc by (simp add: nth_append)
  next
    case 3 then show ?thesis using nc pointsEqual_sym by (simp add: nth_append) blast
  qed
qed

lemma addPoint_separated:
  assumes "separated pts"
  shows "separated (addPoint px py src pts)"
proof (cases "inBounds px py \<and> \<not> covers pts \<lparr>x = px, y = py\<rparr>")
  case True
  let ?n = "\<lparr>x = px, y = py,
             pid = ''potential-'' @ src @ ''-'' @ string_of_nat (length pts),
             isIntersection = Some True, label = None, isInitial = None\<rparr>"
  have "covers pts ?n = covers pts \<lparr>x = px, y = py\<rparr>"
    by (rule covers_coords) simp_all
  with True have "\<not> covers pts ?n" by simp
  with assms have "separated (pts @ [?n])" by (rule separated_snoc)
  with True show ?thesis by (simp add: addPoint_cases)
next
  case False
  then have "addPoint px py src pts = pts" by (auto simp: addPoint_cases)
  with assms show ?thesis by simp
qed

lemma grows_subset: "grows P pts pts' \<Longrightarrow> set pts \<subseteq> set pts'"
  by (induction rule: grows.induct) (use addPoint_subset in blast)+

lemma grows_separated: "grows P pts pts' \<Longrightarrow> separated pts \<Longrightarrow> separated pts'"
  by (induction rule: grows.induct) (simp_all add: addPoint_separated)

lemma grows_covers: "grows P pts pts' \<Longrightarrow> covers pts q \<Longrightarrow> covers pts' q"
  using grows_subset covers_mono by blast

lemma grows_trans: "grows P b c \<Longrightarrow> grows P a b \<Longrightarrow> grows P a c"
  by (induction rule: grows.induct) (auto intro: grows.add)

lemma grows_weaken: "grows P a b \<Longrightarrow> (\<And>px py. P px py \<Longrightarrow> Q px py) \<Longrightarrow> grows Q a b"
  by (induction rule: grows.induct) (auto intro: grows.intros)

lemma grows_addPoint: "P px py \<Longrightarrow> grows P pts (addPoint px py src pts)"
  by (rule grows.add [OF grows.same])

lemma grows_invariant:
  assumes "grows P pts pts'" "\<forall>p\<in>set pts. P (x p) (y p)"
  shows "\<forall>p\<in>set pts'. P (x p) (y p)"
  using assms by (induction rule: grows.induct) (auto simp: addPoint_cases)

lemma grows_foldl:
  assumes "\<And>a k. k \<in> set ks \<Longrightarrow> grows P a (f a k)"
  shows "grows P a (foldl f a ks)"
  using assms
proof (induction ks arbitrary: a)
  case Nil then show ?case by (simp add: grows.same)
next
  case (Cons k ks)
  have "grows P (f a k) (foldl f (f a k) ks)" using Cons by simp
  moreover have "grows P a (f a k)" using Cons.prems by simp
  ultimately show ?case using grows_trans by simp
qed

lemma foldl_covers:
  assumes g: "\<And>a k. k \<in> set ks \<Longrightarrow> grows P a (f a k)"
    and k: "k \<in> set ks" and c: "\<And>a. covers (f a k) q"
  shows "covers (foldl f a ks) q"
proof -
  from k obtain ys zs where ks: "ks = ys @ k # zs" by (auto dest: split_list)
  have "grows P (f (foldl f a ys) k) (foldl f (f (foldl f a ys) k) zs)"
    by (rule grows_foldl) (simp add: g ks)
  then have "covers (foldl f (f (foldl f a ys) k) zs) q"
    using c by (rule grows_covers)
  then show ?thesis by (simp add: ks)
qed

lemma inBounds_grid: "i < GRID_SIZE \<Longrightarrow> j < GRID_SIZE \<Longrightarrow> inBounds (real i) (real j)"
  by (auto simp: inBounds_def GRID_SIZE_def EPSILON_def)

lemma inBounds_inGrid: "inBounds px py = inGrid \<lparr>x = px, y = py\<rparr>"
  by (auto simp: inBounds_def inGrid_def GRID_SIZE_def)

lemma gridPoints_grows: "grows natCoord [] gridPoints"
  unfolding gridPoints_def
  by (intro grows_foldl grows_addPoint) (auto simp: natCoord_def)

lemma gridPoints_natCoord: "p \<in> set gridPoints \<Longrightarrow> natCoord (x p) (y p)"
  using grows_invariant [OF gridPoints_grows] by simp

lemma gridPoints_covers:
  assumes "i < GRID_SIZE" "j < GRID_SIZE"
  shows "covers gridPoints \<lparr>x = real i, y = real j\<rparr>"
  unfolding gridPoints_def
proof (rule foldl_covers [where P = natCoord and k = i])
  show "i \<in> set [0..<GRID_SIZE]" using assms by simp
next
  fix a :: "Point list" and k
  show "grows natCoord a (foldl (\<lambda>pts gy. addPoint (real k) (real gy) ''grid'' pts) a [0..<GRID_SIZE])"
    by (intro grows_foldl grows_addPoint) (auto simp: natCoord_def)
next
  fix a :: "Point list"
  show "covers (foldl (\<lambda>pts gy. addPoint (real i) (real gy) ''grid'' pts) a [0..<GRID_SIZE])
          \<lparr>x = real i, y = real j\<rparr>"
  proof (rule foldl_covers [where P = natCoord and k = j])
    show "j \<in> set [0..<GRID_SIZE]" using assms by simp
  next
    fix b :: "Point list" and k
    show "grows natCoord b (addPoint (real i) (real k) ''grid'' b)"
      by (intro grows_addPoint) (auto simp: natCoord_def)
  next
    fix b :: "Point list"
    show "covers (addPoint (real i) (real j) ''grid'' b) \<lparr>x = real i, y = real j\<rparr>"
      using assms by (intro addPoint_covers inBounds_grid)
  qed
qed

lemma nat_close: "\<bar>real (a::nat) - real (b::nat)\<bar> < EPSILON \<Longrightarrow> a = b"
proof (rule ccontr)
  assume c: "\<bar>real a - real b\<bar> < EPSILON" and ne: "a \<noteq> b"
  then have "a < b \<or> b < a" by auto
  then have "1 \<le> \<bar>real a - real b\<bar>"
  proof
    assume "a < b"
    then have "real a + 1 \<le> real b" by linarith
    then show ?thesis by linarith
  next
    assume "b < a"
    then have "real b + 1 \<le> real a" by linarith
    then show ?thesis by linarith
  qed
  with c show False by (simp add: EPSILON_def)
qed

lemma gridPoints_vertex:
  assumes "i < GRID_SIZE" "j < GRID_SIZE"
  shows "\<exists>p\<in>set gridPoints. x p = real i \<and> y p = real j"
proof -
  from gridPoints_covers [OF assms] obtain p where p: "p \<in> set gridPoints"
    and eq: "pointsEqual p \<lparr>x = real i, y = real j\<rparr>"
    by (auto simp: covers_def)
  from gridPoints_natCoord [OF p] obtain i' j' where c: "x p = real i'" "y p = real j'"
    by (auto simp: natCoord_def)
  from eq c have "i' = i" "j' = j"
    by (auto simp: pointsEqual_def intro: nat_close)
  with p c show ?thesis by auto
qed

lemma gridPoints_separated: "separated gridPoints"
  using grows_separated [OF gridPoints_grows] by (simp add: separated_def)

lemma getIntersection_inBounds:
  "getIntersection A B r = Some c \<Longrightarrow> inBounds (x c) (y c)"
  by (auto simp: getIntersection_def Let_def inBounds_def GRID_MIN_def GRID_MAX_def GRID_SIZE_def
      split: if_splits)

lemma pairLoop_grows: "grows anyCoord pts0 (pairLoop rnd sgs idx s pts0)"
  unfolding pairLoop_def
  by (rule grows_foldl) (auto split: option.splits intro: grows.same grows_addPoint simp: anyCoord_def)

lemma pairLoop_covers:
  assumes "idx < j" "j < length sgs" "getIntersection s (sgs ! j) (rnd idx j) = Some c"
  shows "covers (pairLoop rnd sgs idx s pts0) c"
  unfolding pairLoop_def
proof (rule foldl_covers [where P = anyCoord and k = j])
  show "j \<in> set [idx + 1..<length sgs]" using assms by simp
next
  fix a :: "Point list" and k
  show "grows anyCoord a (case getIntersection s (sgs ! k) (rnd idx k) of None \<Rightarrow> a
          | Some crossing \<Rightarrow> addPoint (x crossing) (y crossing) ''seg-seg'' a)"
    by (auto split: option.splits intro: grows.same grows_addPoint simp: anyCoord_def)
next
  fix a :: "Point list"
  have "covers (addPoint (x c) (y c) ''seg-seg'' a) \<lparr>x = x c, y = y c\<rparr>"
    using assms(3) by (intro addPoint_covers getIntersection_inBounds)
  then have "covers (addPoint (x c) (y c) ''seg-seg'' a) c"
    by (simp add: covers_coords [of c "\<lparr>x = x c, y = y c\<rparr>"])
  then show "covers (case getIntersection s (sgs ! j) (rnd idx j) of None \<Rightarrow> a
          | Some crossing \<Rightarrow> addPoint (x crossing) (y crossing) ''seg-seg'' a) c"
    by (simp add: assms(3))
qed

lemma valid_typeRange: "valid (typeOr (type s)) t \<longleftrightarrow> t \<in> typeRange (type s)"
  by (cases "typeOr (type s)") (auto simp: valid_def typeRange_def)

lemma vLoop_grows: "grows anyCoord pts0 (vLoop s pts0)"
  unfolding vLoop_def Let_def
  by (rule grows_foldl) (auto intro: grows.same grows_addPoint simp: anyCoord_def)

lemma hLoop_grows: "grows anyCoord pts0 (hLoop s pts0)"
  unfolding hLoop_def Let_def
  by (rule grows_foldl) (auto intro: grows.same grows_addPoint simp: anyCoord_def)

lemma vLoop_covers:
  assumes k: "k < GRID_SIZE" and dx: "\<bar>dirX s\<bar> > EPSILON" and cr: "crossesV s k t"
  shows "covers (vLoop s pts0) (alongLine s t)"
proof -
  have dx0: "dirX s \<noteq> 0" using dx by (auto simp: EPSILON_def)
  have xk: "x (p1 s) + t * dirX s = real k"
    using cr by (simp add: crossesV_def alongLine_def dirX_def)
  then have t: "t = (real k - x (p1 s)) / dirX s"
    using dx0 by (simp add: field_simps)
  have tr: "valid (typeOr (type s)) t" using cr by (simp add: valid_typeRange crossesV_def)
  have ib: "inBounds (real k) (y (p1 s) + t * dirY s)"
    using cr xk by (simp add: crossesV_def inBounds_inGrid inGrid_def alongLine_def dirX_def dirY_def)
  have "covers (vLoop s pts0) \<lparr>x = real k, y = y (p1 s) + t * dirY s\<rparr>"
    unfolding vLoop_def Let_def
  proof (rule foldl_covers [where P = anyCoord and k = k])
    show "k \<in> set [0..<GRID_SIZE]" using k by simp
  next
    fix a :: "Point list" and k'
    show "grows anyCoord a
           (if EPSILON < \<bar>x (p2 s) - x (p1 s)\<bar>
            then if valid (typeOr (type s)) ((real k' - x (p1 s)) / (x (p2 s) - x (p1 s)))
                 then addPoint (real k')
                        (y (p1 s) + (real k' - x (p1 s)) / (x (p2 s) - x (p1 s)) * (y (p2 s) - y (p1 s)))
                        ''seg-grid-v'' a
                 else a
            else a)"
      by (auto intro: grows.same grows_addPoint simp: anyCoord_def)
  next
    fix a :: "Point list"
    show "covers
           (if EPSILON < \<bar>x (p2 s) - x (p1 s)\<bar>
            then if valid (typeOr (type s)) ((real k - x (p1 s)) / (x (p2 s) - x (p1 s)))
                 then addPoint (real k)
                        (y (p1 s) + (real k - x (p1 s)) / (x (p2 s) - x (p1 s)) * (y (p2 s) - y (p1 s)))
                        ''seg-grid-v'' a
                 else a
            else a)
           \<lparr>x = real k, y = y (p1 s) + t * dirY s\<rparr>"
      using dx tr ib addPoint_covers [OF ib, of "''seg-grid-v''" a]
      by (simp add: t dirX_def dirY_def)
  qed
  moreover have "x (alongLine s t) = real k" "y (alongLine s t) = y (p1 s) + t * dirY s"
    using cr by (simp_all add: crossesV_def alongLine_def dirY_def)
  ultimately show ?thesis
    by (simp add: covers_coords [of "alongLine s t" "\<lparr>x = real k, y = y (p1 s) + t * dirY s\<rparr>"])
qed

lemma hLoop_covers:
  assumes k: "k < GRID_SIZE" and dy: "\<bar>dirY s\<bar> > EPSILON" and cr: "crossesH s k t"
  shows "covers (hLoop s pts0) (alongLine s t)"
proof -
  have dy0: "dirY s \<noteq> 0" using dy by (auto simp: EPSILON_def)
  have yk: "y (p1 s) + t * dirY s = real k"
    using cr by (simp add: crossesH_def alongLine_def dirY_def)
  then have t: "t = (real k - y (p1 s)) / dirY s"
    using dy0 by (simp add: field_simps)
  have tr: "valid (typeOr (type s)) t" using cr by (simp add: valid_typeRange crossesH_def)
  have ib: "inBounds (x (p1 s) + t * dirX s) (real k)"
    using cr yk by (simp add: crossesH_def inBounds_inGrid inGrid_def alongLine_def dirX_def dirY_def)
  have "covers (hLoop s pts0) \<lparr>x = x (p1 s) + t * dirX s, y = real k\<rparr>"
    unfolding hLoop_def Let_def
  proof (rule foldl_covers [where P = anyCoord and k = k])
    show "k \<in> set [0..<GRID_SIZE]" using k by simp
  next
    fix a :: "Point list" and k'
    show "grows anyCoord a
           (if EPSILON < \<bar>y (p2 s) - y (p1 s)\<bar>
            then if valid (typeOr (type s)) ((real k' - y (p1 s)) / (y (p2 s) - y (p1 s)))
                 then addPoint
                        (x (p1 s) + (real k' - y (p1 s)) / (y (p2 s) - y (p1 s)) * (x (p2 s) - x (p1 s)))
                        (real k') ''seg-grid-h'' a
                 else a
            else a)"
      by (auto intro: grows.same grows_addPoint simp: anyCoord_def)
  next
    fix a :: "Point list"
    show "covers
           (if EPSILON < \<bar>y (p2 s) - y (p1 s)\<bar>
            then if valid (typeOr (type s)) ((real k - y (p1 s)) / (y (p2 s) - y (p1 s)))
                 then addPoint
                        (x (p1 s) + (real k - y (p1 s)) / (y (p2 s) - y (p1 s)) * (x (p2 s) - x (p1 s)))
                        (real k) ''seg-grid-h'' a
                 else a
            else a)
           \<lparr>x = x (p1 s) + t * dirX s, y = real k\<rparr>"
      using dy tr ib addPoint_covers [OF ib, of "''seg-grid-h''" a]
      by (simp add: t dirX_def dirY_def)
  qed
  moreover have "y (alongLine s t) = real k" "x (alongLine s t) = x (p1 s) + t * dirX s"
    using cr by (simp_all add: crossesH_def alongLine_def dirX_def)
  ultimately show ?thesis
    by (simp add: covers_coords [of "alongLine s t" "\<lparr>x = x (p1 s) + t * dirX s, y = real k\<rparr>"])
qed

lemma allDiscoverable_body:
  "allDiscoverablePoints rnd sgs = foldl (body rnd sgs) gridPoints (enumerate 0 sgs)"
  by (simp add: allDiscoverablePoints_def body_def [abs_def] case_prod_unfold)

lemma body_grows: "grows anyCoord pts (body rnd sgs pts e)"
  unfolding body_def
  by (rule grows_trans [OF hLoop_grows], rule grows_trans [OF vLoop_grows], rule pairLoop_grows)

lemma allDiscoverable_grows: "grows anyCoord gridPoints (allDiscoverablePoints rnd sgs)"
  unfolding allDiscoverable_body by (rule grows_foldl) (rule body_grows)

lemma in_enumerate: "idx < length sgs \<Longrightarrow> (idx, sgs ! idx) \<in> set (enumerate 0 sgs)"
  by (simp add: in_set_enumerate_eq)

lemma allDiscoverable_vertex:
  assumes "i < GRID_SIZE" "j < GRID_SIZE"
  shows "\<exists>p\<in>set (allDiscoverablePoints rnd sgs). x p = real i \<and> y p = real j"
  using gridPoints_vertex [OF assms] grows_subset [OF allDiscoverable_grows, of rnd sgs] by blast

lemma allDiscoverable_separated: "separated (allDiscoverablePoints rnd sgs)"
  using grows_separated [OF allDiscoverable_grows gridPoints_separated] .

lemma allDiscoverable_pair:
  assumes "i < j" "j < length sgs" "getIntersection (sgs ! i) (sgs ! j) (rnd i j) = Some c"
  shows "covers (allDiscoverablePoints rnd sgs) c"
  unfolding allDiscoverable_body
proof (rule foldl_covers [where P = anyCoord and k = "(i, sgs ! i)"])
  show "(i, sgs ! i) \<in> set (enumerate 0 sgs)" using assms by (intro in_enumerate) simp
next
  fix a :: "Point list" and e show "grows anyCoord a (body rnd sgs a e)" by (rule body_grows)
next
  fix a :: "Point list"
  have "covers (pairLoop rnd sgs i (sgs ! i) a) c"
    using assms by (rule pairLoop_covers)
  then have "covers (vLoop (sgs ! i) (pairLoop rnd sgs i (sgs ! i) a)) c"
    using vLoop_grows by (rule grows_covers [rotated])
  then have "covers (hLoop (sgs ! i) (vLoop (sgs ! i) (pairLoop rnd sgs i (sgs ! i) a))) c"
    using hLoop_grows by (rule grows_covers [rotated])
  then show "covers (body rnd sgs a (i, sgs ! i)) c" by (simp add: body_def)
qed

lemma allDiscoverable_crossV:
  assumes "s \<in> set sgs" "k < GRID_SIZE" "\<bar>dirX s\<bar> > EPSILON" "crossesV s k t"
  shows "covers (allDiscoverablePoints rnd sgs) (alongLine s t)"
proof -
  from assms(1) obtain i where i: "i < length sgs" "s = sgs ! i" by (auto simp: in_set_conv_nth)
  show ?thesis
    unfolding allDiscoverable_body
  proof (rule foldl_covers [where P = anyCoord and k = "(i, s)"])
    show "(i, s) \<in> set (enumerate 0 sgs)" using i in_enumerate by simp
  next
    fix a :: "Point list" and e show "grows anyCoord a (body rnd sgs a e)" by (rule body_grows)
  next
    fix a :: "Point list"
    have "covers (vLoop s (pairLoop rnd sgs i s a)) (alongLine s t)"
      using assms(2-4) by (rule vLoop_covers)
    then have "covers (hLoop s (vLoop s (pairLoop rnd sgs i s a))) (alongLine s t)"
      using hLoop_grows by (rule grows_covers [rotated])
    then show "covers (body rnd sgs a (i, s)) (alongLine s t)" by (simp add: body_def)
  qed
qed

lemma allDiscoverable_crossH:
  assumes "s \<in> set sgs" "k < GRID_SIZE" "\<bar>dirY s\<bar> > EPSILON" "crossesH s k t"
  shows "covers (allDiscoverablePoints rnd sgs) (alongLine s t)"
proof -
  from assms(1) obtain i where i: "i < length sgs" "s = sgs ! i" by (auto simp: in_set_conv_nth)
  show ?thesis
    unfolding allDiscoverable_body
  proof (rule foldl_covers [where P = anyCoord and k = "(i, s)"])
    show "(i, s) \<in> set (enumerate 0 sgs)" using i in_enumerate by simp
  next
    fix a :: "Point list" and e show "grows anyCoord a (body rnd sgs a e)" by (rule body_grows)
  next
    fix a :: "Point list"
    have "covers (hLoop s (vLoop s (pairLoop rnd sgs i s a))) (alongLine s t)"
      using assms(2-4) by (rule hLoop_covers)
    then show "covers (body rnd sgs a (i, s)) (alongLine s t)" by (simp add: body_def)
  qed
qed

lemma getIntersection_rnd:
  "(case getIntersection A B r of None \<Rightarrow> pts
    | Some c \<Rightarrow> addPoint (x c) (y c) src pts) =
   (case getIntersection A B r' of None \<Rightarrow> pts
    | Some c \<Rightarrow> addPoint (x c) (y c) src pts)"
  by (simp add: getIntersection_def Let_def)

lemma pairLoop_rnd: "pairLoop rnd sgs idx s pts = pairLoop rnd' sgs idx s pts"
  unfolding pairLoop_def
  by (rule foldl_cong, rule refl, rule refl, rule getIntersection_rnd)

lemma allDiscoverable_rnd: "allDiscoverablePoints rnd sgs = allDiscoverablePoints rnd' sgs"
  unfolding allDiscoverablePoints_def
  by (rule foldl_cong, rule refl, rule refl) (simp add: case_prod_unfold pairLoop_rnd [of rnd _ _ _ _ rnd'])

lemma det_swap: "det B A = - det A B"
  by (simp add: det_def algebra_simps)

lemma getIntersection_swap:
  "map_option (\<lambda>p. (x p, y p)) (getIntersection B A r') =
   map_option (\<lambda>p. (x p, y p)) (getIntersection A B r)"
proof (cases "\<bar>det A B\<bar> < EPSILON")
  case True
  then have "\<bar>det B A\<bar> < EPSILON" using det_swap [of B A] by simp
  with True show ?thesis by (simp add: getIntersection_parallel)
next
  case False
  then have fb: "\<not> \<bar>det B A\<bar> < EPSILON" using det_swap [of B A] by simp
  note ab = getIntersection_solution(1) [OF False] getIntersection_solution(2) [OF False, of r]
  note ba = getIntersection_solution(1) [OF fb] getIntersection_solution(2) [OF fb, of r']
  define t where "t = ((x (p2 B) - x (p1 B)) * (y (p1 A) - y (p1 B))
                 - (y (p2 B) - y (p1 B)) * (x (p1 A) - x (p1 B))) / det A B"
  define u where "u = ((x (p2 A) - x (p1 A)) * (y (p1 A) - y (p1 B))
                 - (y (p2 A) - y (p1 A)) * (x (p1 A) - x (p1 B))) / det A B"
  define u2 where "u2 = ((x (p2 A) - x (p1 A)) * (y (p1 B) - y (p1 A))
                 - (y (p2 A) - y (p1 A)) * (x (p1 B) - x (p1 A))) / det B A"
  define t2 where "t2 = ((x (p2 B) - x (p1 B)) * (y (p1 B) - y (p1 A))
                 - (y (p2 B) - y (p1 B)) * (x (p1 B) - x (p1 A))) / det B A"
  have meet: "alongLine A t = alongLine B u"
    using ab(1) by (simp add: t_def u_def)
  have "(alongLine B u = alongLine A t) = (u = u2 \<and> t = t2)"
    using ba(1) by (simp add: t2_def u2_def)
  with meet have e: "u2 = u" "t2 = t" by simp_all
  have r1: "getIntersection A B r =
      (if t \<in> typeRange (type A) \<and> u \<in> typeRange (type B) \<and> inGrid (alongLine A t)
       then Some \<lparr>x = x (alongLine A t), y = y (alongLine A t), pid = ''int-'' @ r,
                  isIntersection = Some True, label = None, isInitial = None\<rparr>
       else None)"
    using ab(2) by (simp add: t_def u_def)
  have r2: "getIntersection B A r' =
      (if u \<in> typeRange (type B) \<and> t \<in> typeRange (type A) \<and> inGrid (alongLine B u)
       then Some \<lparr>x = x (alongLine B u), y = y (alongLine B u), pid = ''int-'' @ r',
                  isIntersection = Some True, label = None, isInitial = None\<rparr>
       else None)"
    using ba(2) unfolding u2_def [symmetric] t2_def [symmetric] e .
  show ?thesis
    unfolding r1 r2 by (simp add: meet)
qed

lemma getIntersection_coords:
  assumes "getIntersection A B r = Some c"
  shows "\<exists>c'. getIntersection A B r' = Some c' \<and> x c' = x c \<and> y c' = y c"
  using assms by (auto simp: getIntersection_def Let_def split: if_splits)

lemma allDiscoverable_unordered_pair:
  assumes "i < length sgs" "j < length sgs" "i \<noteq> j"
    and c: "getIntersection (sgs ! i) (sgs ! j) r = Some c"
  shows "covers (allDiscoverablePoints rnd sgs) c"
proof (cases "i < j")
  case True
  from getIntersection_coords [OF c, of "rnd i j"] obtain c' where
    c': "getIntersection (sgs ! i) (sgs ! j) (rnd i j) = Some c'" "x c' = x c" "y c' = y c"
    by blast
  have "covers (allDiscoverablePoints rnd sgs) c'"
    using True assms(2) c'(1) by (rule allDiscoverable_pair)
  then show ?thesis using c'(2,3) by (simp add: covers_coords [of c' c])
next
  case False
  then have ji: "j < i" using assms(3) by simp
  from getIntersection_swap [of "sgs ! j" "sgs ! i" "rnd j i" r] c
  obtain c' where
    c': "getIntersection (sgs ! j) (sgs ! i) (rnd j i) = Some c'" "x c' = x c" "y c' = y c"
    by (cases "getIntersection (sgs ! j) (sgs ! i) (rnd j i)") auto
  have "covers (allDiscoverablePoints rnd sgs) c'"
    using ji assms(1) c'(1) by (rule allDiscoverable_pair)
  then show ?thesis using c'(2,3) by (simp add: covers_coords [of c' c])
qed

lemma foldl_skip: "foldl (\<lambda>pts k. pts) a ks = a"
  by (induction ks) simp_all

lemma hLoop_grows_natY: "grows natY pts0 (hLoop s pts0)"
  unfolding hLoop_def Let_def
  by (rule grows_foldl) (auto intro: grows.same grows_addPoint simp: natY_def)

lemma exSteep_out: "allDiscoverablePoints rnd [exSteep] = hLoop exSteep gridPoints"
proof -
  have v: "vLoop exSteep pts = pts" for pts
    by (simp add: vLoop_def Let_def exSteep_def mkLine_def mkPoint_def EPSILON_def foldl_skip)
  show ?thesis
    by (simp add: allDiscoverablePoints_def enumerate_simps pairLoop_def v)
qed

lemma exSteep_natY: "p \<in> set (allDiscoverablePoints rnd [exSteep]) \<Longrightarrow> \<exists>j. y p = real (j::nat)"
proof -
  have g: "\<forall>p\<in>set gridPoints. natY (x p) (y p)"
    using gridPoints_natCoord by (auto simp: natCoord_def natY_def)
  from grows_invariant [OF hLoop_grows_natY g, of exSteep]
  show "p \<in> set (allDiscoverablePoints rnd [exSteep]) \<Longrightarrow> \<exists>j. y p = real (j::nat)"
    by (auto simp: exSteep_out natY_def)
qed

lemma half_not_nat: "\<not> \<bar>real (j::nat) - 1 / 2\<bar> < EPSILON"
proof (cases j)
  case 0 then show ?thesis by (simp add: EPSILON_def)
next
  case (Suc n)
  then have "1 \<le> real j" by simp
  then show ?thesis by (simp add: EPSILON_def)
qed

lemma exSteep_uncovered:
  "\<not> covers (allDiscoverablePoints rnd [exSteep]) (alongLine exSteep 0)"
proof
  assume "covers (allDiscoverablePoints rnd [exSteep]) (alongLine exSteep 0)"
  then obtain p where p: "p \<in> set (allDiscoverablePoints rnd [exSteep])"
    and e: "pointsEqual p (alongLine exSteep 0)"
    by (auto simp: covers_def)
  from exSteep_natY [OF p] obtain j where "y p = real j" by blast
  with e have "\<bar>real j - 1 / 2\<bar> < EPSILON"
    by (simp add: pointsEqual_def alongLine_def exSteep_def mkLine_def mkPoint_def)
  with half_not_nat show False by blast
qed

lemma exSteep_crosses:
  "crossesV exSteep 1 0" "dirX exSteep \<noteq> 0" "alongLine exSteep 0 = \<lparr>x = 1, y = 1 / 2\<rparr>"
  by (simp_all add: crossesV_def alongLine_def exSteep_def mkLine_def mkPoint_def typeRange_def
      typeOr_def inGrid_def EPSILON_def dirX_def)

lemma exCross_facts:
  "length exCross = 2"
  "mkLine (Some SEGMENT) 0 0 2 2 \<in> set exCross"
  "mkLine (Some SEGMENT) 0 2 2 0 \<in> set exCross"
  "exCross ! 0 = mkLine (Some SEGMENT) 0 0 2 2"
  "exCross ! 1 = mkLine (Some SEGMENT) 0 2 2 0"
  by (simp_all add: exCross_def)

lemma exCross_meet:
  "getIntersection (mkLine (Some SEGMENT) 0 0 2 2) (mkLine (Some SEGMENT) 0 2 2 0) ''r'' =
     Some \<lparr>x = 1, y = 1, pid = ''int-r'', isIntersection = Some True, label = None,
            isInitial = None\<rparr>"
  by (simp add: getIntersection_def Let_def mkLine_def mkPoint_def EPSILON_def GRID_MIN_def
      GRID_MAX_def)

lemma exCross_crossings:
  "EPSILON < \<bar>dirX (mkLine (Some SEGMENT) 0 0 2 2)\<bar>"
  "crossesV (mkLine (Some SEGMENT) 0 0 2 2) 1 (1 / 2)"
  "EPSILON < \<bar>dirY (mkLine (Some SEGMENT) 0 2 2 0)\<bar>"
  "crossesH (mkLine (Some SEGMENT) 0 2 2 0) 1 (1 / 2)"
  by (simp_all add: crossesV_def crossesH_def alongLine_def mkLine_def mkPoint_def typeRange_def
      typeOr_def inGrid_def EPSILON_def dirX_def dirY_def)

section \<open>Discoverable points: main result\<close>

text \<open>
  C6, as stated, fails for a line that is almost parallel to a gridline: the segment
  \<open>exSteep\<close> from \<open>(1, 1/2)\<close> to \<open>(1.00005, 3/2)\<close> crosses the gridline \<open>x = 1\<close> at its first
  endpoint (parameter 0, inside the grid), yet its extent along \<open>x\<close> does not exceed
  \<open>EPSILON\<close>, the loop over vertical gridlines skips it, and no returned point is
  \<open>pointsEqual\<close> to \<open>(1, 1/2)\<close>.
\<close>

theorem steep_line_crossing_counterexample:
  "exSteep \<in> set [exSteep] \<and> 1 < GRID_SIZE \<and> dirX exSteep \<noteq> 0 \<and> crossesV exSteep 1 0 \<and>
   alongLine exSteep 0 = \<lparr>x = 1, y = 1 / 2\<rparr> \<and>
   \<not> covers (allDiscoverablePoints exRnd [exSteep]) (alongLine exSteep 0)"
  using exSteep_crosses exSteep_uncovered [of exRnd] by (simp add: GRID_SIZE_def)

text \<open>
  C6 (as amended). The enumeration does not depend on the random numbers drawn for the
  identifiers. Its result holds every grid vertex of the 7 by 7 grid; it covers (holds a
  point that \<open>pointsEqual\<close> identifies with) every result of \<open>getIntersection\<close> on two
  different lines of the list, in either order, and every crossing of a line with a gridline
  \<open>x = k\<close> (\<open>y = k\<close>) whose parameter is in the range of the line's type and whose point is
  in the grid, provided the line's extent along \<open>x\<close> (along \<open>y\<close>) exceeds \<open>EPSILON\<close>. A
  position that is already covered is not added again, and no two returned points are
  \<open>pointsEqual\<close>.
\<close>

theorem discoverable_points_contract:
  "allDiscoverablePoints rnd sgs = allDiscoverablePoints rnd' sgs \<and>
   (\<forall>i<GRID_SIZE. \<forall>j<GRID_SIZE.
      \<exists>p\<in>set (allDiscoverablePoints rnd sgs). x p = real i \<and> y p = real j) \<and>
   (\<forall>i<length sgs. \<forall>j<length sgs. i \<noteq> j \<longrightarrow>
      (\<forall>c. getIntersection (sgs ! i) (sgs ! j) r = Some c \<longrightarrow>
           covers (allDiscoverablePoints rnd sgs) c)) \<and>
   (\<forall>s\<in>set sgs. \<forall>k<GRID_SIZE. \<forall>t. EPSILON < \<bar>dirX s\<bar> \<and> crossesV s k t \<longrightarrow>
      covers (allDiscoverablePoints rnd sgs) (alongLine s t)) \<and>
   (\<forall>s\<in>set sgs. \<forall>k<GRID_SIZE. \<forall>t. EPSILON < \<bar>dirY s\<bar> \<and> crossesH s k t \<longrightarrow>
      covers (allDiscoverablePoints rnd sgs) (alongLine s t)) \<and>
   (\<forall>px py src pts. covers pts \<lparr>x = px, y = py\<rparr> \<longrightarrow> addPoint px py src pts = pts) \<and>
   separated (allDiscoverablePoints rnd sgs)"
proof (intro conjI allI impI ballI)
  show "allDiscoverablePoints rnd sgs = allDiscoverablePoints rnd' sgs"
    by (rule allDiscoverable_rnd)
next
  fix i j assume "i < GRID_SIZE" "j < GRID_SIZE"
  then show "\<exists>p\<in>set (allDiscoverablePoints rnd sgs). x p = real i \<and> y p = real j"
    by (rule allDiscoverable_vertex)
next
  fix i j c
  assume "i < length sgs" "j < length sgs" "i \<noteq> j"
    "getIntersection (sgs ! i) (sgs ! j) r = Some c"
  then show "covers (allDiscoverablePoints rnd sgs) c"
    by (rule allDiscoverable_unordered_pair)
next
  fix s k t
  assume "s \<in> set sgs" "k < GRID_SIZE" "EPSILON < \<bar>dirX s\<bar> \<and> crossesV s k t"
  then show "covers (allDiscoverablePoints rnd sgs) (alongLine s t)"
    using allDiscoverable_crossV [of s sgs k t rnd] by blast
next
  fix s k t
  assume "s \<in> set sgs" "k < GRID_SIZE" "EPSILON < \<bar>dirY s\<bar> \<and> crossesH s k t"
  then show "covers (allDiscoverablePoints rnd sgs) (alongLine s t)"
    using allDiscoverable_crossH [of s sgs k t rnd] by blast
next
  fix px py src pts
  assume "covers pts \<lparr>x = px, y = py\<rparr>"
  then show "addPoint px py src pts = pts" by (rule addPoint_covered)
next
  show "separated (allDiscoverablePoints rnd sgs)" by (rule allDiscoverable_separated)
qed

theorem discoverable_points_contract_witness:
  "allDiscoverablePoints exRnd exCross = allDiscoverablePoints (\<lambda>i j. ''0.9'') exCross \<and>
   (\<exists>p\<in>set (allDiscoverablePoints exRnd exCross). x p = 1 \<and> y p = 1) \<and>
   getIntersection (exCross ! 0) (exCross ! 1) ''r'' =
     Some \<lparr>x = 1, y = 1, pid = ''int-r'', isIntersection = Some True, label = None,
            isInitial = None\<rparr> \<and>
   covers (allDiscoverablePoints exRnd exCross)
     \<lparr>x = 1, y = 1, pid = ''int-r'', isIntersection = Some True, label = None,
       isInitial = None\<rparr> \<and>
   EPSILON < \<bar>dirX (mkLine (Some SEGMENT) 0 0 2 2)\<bar> \<and>
   crossesV (mkLine (Some SEGMENT) 0 0 2 2) 1 (1 / 2) \<and>
   covers (allDiscoverablePoints exRnd exCross) (alongLine (mkLine (Some SEGMENT) 0 0 2 2) (1 / 2)) \<and>
   EPSILON < \<bar>dirY (mkLine (Some SEGMENT) 0 2 2 0)\<bar> \<and>
   crossesH (mkLine (Some SEGMENT) 0 2 2 0) 1 (1 / 2) \<and>
   covers (allDiscoverablePoints exRnd exCross) (alongLine (mkLine (Some SEGMENT) 0 2 2 0) (1 / 2)) \<and>
   covers [exPoint 0] \<lparr>x = 0, y = 0\<rparr> \<and>
   addPoint 0 0 ''grid'' [exPoint 0] = [exPoint 0] \<and>
   separated (allDiscoverablePoints exRnd exCross)"
proof -
  note T = discoverable_points_contract [of exRnd exCross "\<lambda>i j. ''0.9''" "''r''"]
  note T1 = T [THEN conjunct1]
  note T2 = T [THEN conjunct2, THEN conjunct1, rule_format]
  note T3 = T [THEN conjunct2, THEN conjunct2, THEN conjunct1, rule_format]
  note T4 = T [THEN conjunct2, THEN conjunct2, THEN conjunct2, THEN conjunct1, rule_format]
  note T5 = T [THEN conjunct2, THEN conjunct2, THEN conjunct2, THEN conjunct2, THEN conjunct1,
      rule_format]
  note T6 = T [THEN conjunct2, THEN conjunct2, THEN conjunct2, THEN conjunct2, THEN conjunct2,
      THEN conjunct1, rule_format]
  note T7 = T [THEN conjunct2, THEN conjunct2, THEN conjunct2, THEN conjunct2, THEN conjunct2,
      THEN conjunct2]
  have g: "(1::nat) < GRID_SIZE" by (simp add: GRID_SIZE_def)
  have v: "\<exists>p\<in>set (allDiscoverablePoints exRnd exCross). x p = 1 \<and> y p = 1"
    using T2 [OF g g] by simp
  have m: "getIntersection (exCross ! 0) (exCross ! 1) ''r'' =
     Some \<lparr>x = 1, y = 1, pid = ''int-r'', isIntersection = Some True, label = None,
            isInitial = None\<rparr>"
    unfolding exCross_facts(4,5) by (rule exCross_meet)
  have mc: "covers (allDiscoverablePoints exRnd exCross)
     \<lparr>x = 1, y = 1, pid = ''int-r'', isIntersection = Some True, label = None,
       isInitial = None\<rparr>"
    by (rule T3 [OF _ _ _ m]) (simp_all add: exCross_facts)
  have cv: "covers (allDiscoverablePoints exRnd exCross)
              (alongLine (mkLine (Some SEGMENT) 0 0 2 2) (1 / 2))"
    by (rule T4 [OF exCross_facts(2) g]) (rule conjI; rule exCross_crossings)
  have ch: "covers (allDiscoverablePoints exRnd exCross)
              (alongLine (mkLine (Some SEGMENT) 0 2 2 0) (1 / 2))"
    by (rule T5 [OF exCross_facts(3) g]) (rule conjI; rule exCross_crossings)
  have c0: "covers [exPoint 0] \<lparr>x = 0, y = 0\<rparr>"
    by (simp add: covers_def exPoint_def pointsEqual_def EPSILON_def)
  have a0: "addPoint 0 0 ''grid'' [exPoint 0] = [exPoint 0]"
    by (rule T6 [OF c0])
  show ?thesis
    by (intro conjI T1 v m mc exCross_crossings cv ch c0 a0 T7)
qed

section \<open>Lines of positive length: helper lemmas\<close>

lemma linesOK_reset:
  "\<forall>sg\<in>set (initSegments lv). nonDegenerate sg \<Longrightarrow> linesOK (resetLevel (Some lv) s)"
  by (simp add: linesOK_def resetLevel_def)

lemma set_sliceTo: "set (sliceTo xs e) \<subseteq> set xs"
  by (simp add: sliceTo_def set_take_subset)

lemma linesOK_commit:
  "linesOK s \<Longrightarrow> \<forall>sg\<in>set ns. nonDegenerate sg \<Longrightarrow> linesOK (commitToHistory np ns s)"
  using set_sliceTo [of "history s" "historyIndex s + 1"] by (auto simp: linesOK_def)

lemma arrayAt_mem: "arrayAt xs i = Some v \<Longrightarrow> v \<in> set xs"
  by (auto simp: arrayAt_def split: if_splits)

lemma linesOK_undo: "linesOK s \<Longrightarrow> undo s = Inr s' \<Longrightarrow> linesOK s'"
  by (auto simp: undo_def Let_def linesOK_def split: if_splits option.splits dest: arrayAt_mem)

lemma linesOK_redo: "linesOK s \<Longrightarrow> redo s = Inr s' \<Longrightarrow> linesOK s'"
  by (auto simp: redo_def Let_def linesOK_def split: if_splits option.splits dest: arrayAt_mem)

lemma linesOK_cong:
  "history s' = history s \<Longrightarrow> segs s' = segs s \<Longrightarrow> linesOK s' = linesOK s"
  by (simp add: linesOK_def)

lemma linesOK_goalEffect [simp]: "linesOK (goalEffect cl s) = linesOK s"
  by (rule linesOK_cong) simp_all

lemma linesOK_resetInteraction [simp]: "linesOK (resetInteraction s) = linesOK s"
  by (rule linesOK_cong) simp_all

lemma linesOK_mouseDown: "linesOK s \<Longrightarrow> linesOK (handleMouseDown rnd e s)"
  by (auto simp: handleMouseDown_def linesOK_def split: option.splits)

lemma linesOK_mouseMove: "linesOK s \<Longrightarrow> linesOK (handleMouseMove rnd e s)"
  by (auto simp: handleMouseMove_def linesOK_def Let_def split: option.splits)

lemma linesOK_mouseUp:
  assumes "linesOK s"
  shows "linesOK (handleMouseUp lv rnd now e s)"
proof -
  have old: "\<forall>sg\<in>set (segs s). nonDegenerate sg" using assms by (simp add: linesOK_def)
  show ?thesis
    using assms old
    by (auto simp: handleMouseUp_def Let_def nonDegenerate_def split: option.splits
        intro!: linesOK_commit)
qed

lemma linesOK_handler:
  assumes "linesOK s" "\<forall>sg\<in>set (initSegments lv). nonDegenerate sg" "handler lv rnd a s = Inr s'"
  shows "linesOK s'"
  using assms
  by (cases a)
     (auto simp: linesOK_mouseDown linesOK_mouseMove linesOK_mouseUp linesOK_reset
        dest: linesOK_undo linesOK_redo)

lemma linesOK_step:
  "linesOK s \<Longrightarrow> \<forall>sg\<in>set (initSegments lv). nonDegenerate sg \<Longrightarrow> step lv rnd a s = Inr s' \<Longrightarrow>
   linesOK s'"
  by (auto simp: step_def split: sum.splits dest: linesOK_handler)

lemma reachable_linesOK:
  "reachable lv s \<Longrightarrow> \<forall>sg\<in>set (initSegments lv). nonDegenerate sg \<Longrightarrow> linesOK s"
  by (induction rule: reachable.induct) (auto simp: linesOK_reset dest: linesOK_step)

lemma mouseUp_rejects:
  assumes "dragStartPoint s = Some a" "isActuallyDragging s" "nearest rnd s e = Some b"
    "pointsEqual a b"
  shows "handleMouseUp lv rnd now e s = resetInteraction s"
  using assms by (simp add: handleMouseUp_def)

lemma nonDegenerate_coords:
  "x (p1 a) = x (p1 b) \<Longrightarrow> y (p1 a) = y (p1 b) \<Longrightarrow> x (p2 a) = x (p2 b) \<Longrightarrow>
   y (p2 a) = y (p2 b) \<Longrightarrow> nonDegenerate a = nonDegenerate b"
  by (simp add: nonDegenerate_def pointsEqual_def)

lemma editorOK_initial: "editorOK initialEditor"
  by (simp add: editorOK_def initialEditor_def)

lemma editorOK_mouseDown: "editorOK s \<Longrightarrow> editorOK (LevelEditor_handleMouseDown now c s)"
  by (auto simp: LevelEditor_handleMouseDown_def editorOK_def Let_def split: option.splits)

lemma editorOK_mouseUp: "editorOK s \<Longrightarrow> editorOK (LevelEditor_handleMouseUp now c s)"
  by (auto simp: LevelEditor_handleMouseUp_def editorOK_def Let_def nonDegenerate_def
      pointsEqual_def split: option.splits)

lemma editorOK_remove: "editorOK s \<Longrightarrow> editorOK (removeItem kind ident s)"
  by (cases kind) (auto simp: removeItem_def editorOK_def)

lemma editorOK_step:
  assumes "editorOK s"
  shows "editorOK (editorStep a s)"
proof (cases a)
  case (EdMouseDown now c)
  then show ?thesis using assms by (simp add: editorOK_mouseDown)
next
  case (EdMouseMove c)
  then show ?thesis using assms by (simp add: LevelEditor_handleMouseMove_def editorOK_def)
next
  case (EdMouseUp now c)
  then show ?thesis using assms by (simp add: editorOK_mouseUp)
next
  case (EdRemove kind ident)
  then show ?thesis using assms by (simp add: editorOK_remove)
next
  case (EdSetLayer l)
  then show ?thesis using assms by (simp add: editorOK_def)
next
  case (EdSetShape sh)
  then show ?thesis using assms by (simp add: editorOK_def)
next
  case (EdSetLineType ty)
  then show ?thesis using assms by (simp add: editorOK_def)
qed

lemma editorReachable_OK: "editorReachable s \<Longrightarrow> editorOK s"
  by (induction rule: editorReachable.induct) (simp_all add: editorOK_initial editorOK_step)

lemma initSegments_coords:
  assumes "sg \<in> set (initSegments lv)"
  shows "\<exists>g\<in>set (listOr (isegments (initial lv))).
           x (p1 sg) = x (p1 g) \<and> y (p1 sg) = y (p1 g) \<and>
           x (p2 sg) = x (p2 g) \<and> y (p2 sg) = y (p2 g)"
  using assms by (auto simp: initSegments_def in_set_enumerate_eq)

lemma generated_nonDegenerate:
  assumes "editorOK ed" "sg \<in> set (initSegments (generatedLevel n t d ty ed))"
  shows "nonDegenerate sg"
proof -
  from initSegments_coords [OF assms(2)] obtain g where
    g: "g \<in> set (listOr (isegments (initial (generatedLevel n t d ty ed))))"
    and c: "x (p1 sg) = x (p1 g)" "y (p1 sg) = y (p1 g)" "x (p2 sg) = x (p2 g)" "y (p2 sg) = y (p2 g)"
    by blast
  from g obtain e where e: "e \<in> set (initialSegments ed)"
    and ge: "x (p1 g) = x (p1 e)" "y (p1 g) = y (p1 e)" "x (p2 g) = x (p2 e)" "y (p2 g) = y (p2 e)"
    by (auto simp: generatedLevel_def listOr_def)
  from e assms(1) have "nonDegenerate e" by (simp add: editorOK_def)
  moreover have "nonDegenerate sg = nonDegenerate e"
    by (rule nonDegenerate_coords) (simp_all add: c ge)
  ultimately show ?thesis by simp
qed

lemma editor_rejects:
  assumes "dragStart ed = Some a" "snap (x c) (y c) = Some q" "pointsEqual a q"
  shows "initialSegments (LevelEditor_handleMouseUp now c ed) = initialSegments ed \<and>
         goalSegments (LevelEditor_handleMouseUp now c ed) = goalSegments ed"
  using assms by (simp add: LevelEditor_handleMouseUp_def)



lemma exLevelSeg_lines:
  "\<forall>sg\<in>set (initSegments exLevelSeg). nonDegenerate sg" "length (initSegments exLevelSeg) = 1"
  by (simp_all add: initSegments_def exLevelSeg_def listOr_def enumerate_simps nonDegenerate_def
      pointsEqual_def EPSILON_def)

lemma exS0_facts: "reachable exLevelSeg exS0" "segs exS0 = initSegments exLevelSeg"
proof -
  show "reachable exLevelSeg exS0" unfolding exS0_def by (rule reachable.enter)
  show "segs exS0 = initSegments exLevelSeg" by (simp add: exS0_def resetLevel_def)
qed

lemma snap_examples:
  "snap 0 0 = Some \<lparr>x = 0, y = 0\<rparr>" "snap 6 6 = Some \<lparr>x = 6, y = 6\<rparr>"
  "snap (1 / 10) (1 / 10) = Some \<lparr>x = 0, y = 0\<rparr>"
  by (simp_all add: snap_def Let_def SNAP_THRESHOLD_def)

lemma exEdDrag_facts:
  "dragStart exEdDrag = Some (mkPoint 0 0\<lparr>pid := ''p-'' @ string_of_nat 0\<rparr>)"
  "editShape exEdDrag = ShapeLine" "editLayer exEdDrag = LayerInitial"
  "initialSegments exEdDrag = []" "goalSegments exEdDrag = []"
  by (simp_all add: exEdDrag_def LevelEditor_handleMouseDown_def snap_examples initialEditor_def
      mkPoint_def)

lemma exEd_facts: "editorReachable exEdDrag" "editorReachable exEd" "length (initialSegments exEd) = 1"
proof -
  show d: "editorReachable exEdDrag"
    unfolding exEdDrag_def by (intro editorReachable.edit editorReachable.start)
  show "editorReachable exEd"
    unfolding exEd_def using d by (rule editorReachable.edit)
  show "length (initialSegments exEd) = 1"
    by (simp add: exEd_def LevelEditor_handleMouseUp_def exEdDrag_facts snap_examples Let_def
        pointsEqual_def mkPoint_def EPSILON_def)
qed

lemma exG0_facts: "reachable exGenerated exG0" "length (segs exG0) = 1"
proof -
  show "reachable exGenerated exG0" unfolding exG0_def by (rule reachable.enter)
  have "length (initialSegments exEd) = 1" by (rule exEd_facts)
  then show "length (segs exG0) = 1"
    by (simp add: exG0_def resetLevel_def initSegments_def exGenerated_def generatedLevel_def
        listOr_def)
qed

lemma goalEffect_pointer_fields [simp]:
  "startMouseScreenPos (goalEffect cl s) = startMouseScreenPos s"
  "currentMousePos (goalEffect cl s) = currentMousePos s"
  "dragSnapPoint (goalEffect cl s) = dragSnapPoint s"
  by (auto simp: goalEffect_def split: option.splits)

lemma ex1_start: "startMouseScreenPos ex1 = Some \<lparr>x = 0, y = 0\<rparr>"
proof -
  have "handleMouseDown exRnd exPtr ex0 =
      ex0\<lparr>dragStartPoint := Some (hd gridPoints),
          startMouseScreenPos := Some \<lparr>x = clientX exPtr, y = clientY exPtr\<rparr>,
          isActuallyDragging := False\<rparr>"
    using ex0_flag by (simp add: handleMouseDown_def nearest_ex0)
  then show ?thesis by (simp add: ex1_def exPtr_def)
qed

lemma ex1d_facts:
  "reachable exLevel ex1d" "dragStartPoint ex1d = Some (hd gridPoints)" "isActuallyDragging ex1d"
  "nearest exRnd ex1d exPtr = Some (hd gridPoints)" "history ex1d = history ex0"
proof -
  have st: "step exLevel exRnd (MouseMove exPtrFar) ex1 = Inr ex1d"
    by (simp add: step_def ex1d_def)
  with ex_reachable(2) show "reachable exLevel ex1d" by (rule reachable.act)
  have mv: "handleMouseMove exRnd exPtrFar ex1 =
      ex1\<lparr>currentMousePos := Some (coords exPtrFar), isActuallyDragging := True,
          dragSnapPoint := nearest exRnd ex1 exPtrFar\<rparr>"
    by (simp add: handleMouseMove_def ex1_fields ex1_start exPtrFar_def DRAG_THRESHOLD_PX_def Let_def)
  show "dragStartPoint ex1d = Some (hd gridPoints)"
    by (simp add: ex1d_def mv ex1_fields)
  show "isActuallyDragging ex1d"
    by (simp add: ex1d_def mv)
  show "history ex1d = history ex0"
    by (simp add: ex1d_def mv ex1_fields)
  have "visiblePoints ex1d = []" "segs ex1d = []"
    by (simp_all add: ex1d_def mv ex1_fields)
  then show "nearest exRnd ex1d exPtr = Some (hd gridPoints)"
    using gridPoints_hd
    by (simp add: nearest_def allDiscoverable_nil exPtr_def findNearest_hd_exact)
qed

lemma distSq_zero:
  "distSq p \<lparr>x = gx, y = gy\<rparr> = 0 \<longleftrightarrow> (x p = gx \<and> y p = gy)"
  by (auto simp: distSq_def sum_power2_eq_zero_iff)

lemma foldl_nearest_exact:
  assumes "0 \<le> m"
    and "m = 0 \<longrightarrow> (\<exists>r. c = Some r \<and> x r = gx \<and> y r = gy)"
    and "m = 0 \<or> (\<exists>p\<in>set ps. x p = gx \<and> y p = gy)"
  shows "\<exists>r. fst (foldl (\<lambda>(closest, minD) p.
                      let d = sqrt (distSq p \<lparr>x = gx, y = gy\<rparr>)
                      in if d < minD then (Some p, d) else (closest, minD)) (c, m) ps) = Some r \<and>
             x r = gx \<and> y r = gy"
  using assms
proof (induction ps arbitrary: c m)
  case Nil
  then show ?case by simp
next
  case (Cons p ps)
  let ?d = "sqrt (distSq p \<lparr>x = gx, y = gy\<rparr>)"
  have d0: "0 \<le> ?d" by (simp add: distSq_def)
  show ?case
  proof (cases "?d < m")
    case True
    have a: "?d = 0 \<longrightarrow> (\<exists>r. Some p = Some r \<and> x r = gx \<and> y r = gy)"
      by (simp add: distSq_zero)
    have b: "?d = 0 \<or> (\<exists>p'\<in>set ps. x p' = gx \<and> y p' = gy)"
      using Cons.prems(3) True d0 by (auto simp: distSq_zero)
    from Cons.IH [OF d0 a b] True show ?thesis by (simp add: Let_def)
  next
    case False
    have b: "m = 0 \<or> (\<exists>p'\<in>set ps. x p' = gx \<and> y p' = gy)"
    proof (rule ccontr)
      assume n: "\<not> (m = 0 \<or> (\<exists>p'\<in>set ps. x p' = gx \<and> y p' = gy))"
      with Cons.prems(3) have "x p = gx \<and> y p = gy" by auto
      then have "?d = 0" by (simp add: distSq_zero)
      with False Cons.prems(1) n show False by simp
    qed
    from Cons.IH [OF Cons.prems(1) Cons.prems(2) b] False show ?thesis by (simp add: Let_def)
  qed
qed

lemma findNearest_exact:
  assumes "\<exists>p\<in>set (vps @ disc). x p = gx \<and> y p = gy"
  shows "\<exists>r. findNearestPoint vps disc gx gy = Some r \<and> x r = gx \<and> y r = gy"
  unfolding findNearestPoint_def
  by (rule foldl_nearest_exact) (use assms in \<open>simp_all add: SNAP_THRESHOLD_def\<close>)

lemma nearest_vertex:
  assumes "i < GRID_SIZE" "j < GRID_SIZE" "coords e = \<lparr>x = real i, y = real j\<rparr>"
  shows "\<exists>r. nearest rnd s e = Some r \<and> x r = real i \<and> y r = real j"
proof -
  from allDiscoverable_vertex [OF assms(1,2), of rnd "segs s"]
  have "\<exists>p\<in>set (visiblePoints s @ allDiscoverablePoints rnd (segs s)). x p = real i \<and> y p = real j"
    by auto
  from findNearest_exact [OF this] show ?thesis
    by (simp add: nearest_def assms(3))
qed


lemma exS0_state:
  "visiblePoints exS0 = []" "\<not> isLevelCleared exS0" "historyIndex exS0 = 0"
  "goals exLevelSeg = Some exGoals" "typeOr (lineType exLevelSeg) = SEGMENT"
  by (simp_all add: exS0_def goalEffect_flag resetLevel_def initPoints_def exLevelSeg_def
      listOr_def exGoals_def clearedVerdict_def pointsCleared_def typeOr_def initialEngine_def)

lemma exGoals_unmet: "\<not> clearedVerdict exGoals [] sgs"
  by (simp add: clearedVerdict_def pointsCleared_def exGoals_def)

lemma exLevelSeg_init:
  "\<exists>sg. initSegments exLevelSeg = [sg] \<and> type sg = Some SEGMENT \<and>
        x (p1 sg) = 0 \<and> y (p1 sg) = 0 \<and> x (p2 sg) = 6 \<and> y (p2 sg) = 6"
  by (simp add: initSegments_def exLevelSeg_def listOr_def enumerate_simps typeOr_def)

lemma goalEffect_unmet:
  "\<not> isLevelCleared s \<Longrightarrow> visiblePoints s = [] \<Longrightarrow> goalEffect (Some exLevelSeg) s = s"
  by (simp add: goalEffect_def exS0_state(4) exGoals_unmet)

lemma exD_run:
  "reachable exLevelSeg exD3 \<and> length (segs exD3) = 2 \<and> historyIndex exD3 = 1 \<and>
   x (p1 (last (segs exD3))) = 0 \<and> y (p1 (last (segs exD3))) = 0 \<and>
   x (p2 (last (segs exD3))) = 0 \<and> y (p2 (last (segs exD3))) = 1 \<and>
   sIsInitial (last (segs exD3)) = None"
proof -
  have g0: "(0::nat) < GRID_SIZE" and g1: "(1::nat) < GRID_SIZE" by (simp_all add: GRID_SIZE_def)
  \<comment> \<open>press on the vertex (0, 0)\<close>
  from nearest_vertex [OF g0 g0, of exPtr exRnd exS0]
  obtain r0 where n0: "nearest exRnd exS0 exPtr = Some r0" and r0: "x r0 = 0" "y r0 = 0"
    by (auto simp: exPtr_def)
  have md: "handleMouseDown exRnd exPtr exS0 =
      exS0\<lparr>dragStartPoint := Some r0,
           startMouseScreenPos := Some \<lparr>x = clientX exPtr, y = clientY exPtr\<rparr>,
           isActuallyDragging := False\<rparr>"
    using exS0_state(2) by (simp add: handleMouseDown_def n0)
  have d1: "exD1 = exS0\<lparr>dragStartPoint := Some r0,
           startMouseScreenPos := Some \<lparr>x = 0, y = 0\<rparr>,
           isActuallyDragging := False\<rparr>"
  proof -
    have "goalEffect (Some exLevelSeg) (handleMouseDown exRnd exPtr exS0) =
          handleMouseDown exRnd exPtr exS0"
      using exS0_state(1,2) by (intro goalEffect_unmet) (simp_all add: md)
    then show ?thesis by (simp add: exD1_def md) (simp add: exPtr_def)
  qed
  \<comment> \<open>move ten pixels away\<close>
  have mv: "handleMouseMove exRnd exPtrFar exD1 =
      exD1\<lparr>currentMousePos := Some (coords exPtrFar), isActuallyDragging := True,
           dragSnapPoint := nearest exRnd exD1 exPtrFar\<rparr>"
    by (simp add: handleMouseMove_def d1 exPtrFar_def DRAG_THRESHOLD_PX_def Let_def)
  have d2flag: "\<not> isLevelCleared (handleMouseMove exRnd exPtrFar exD1)"
    "visiblePoints (handleMouseMove exRnd exPtrFar exD1) = []"
    using exS0_state(1,2) by (simp_all add: mv, simp_all add: d1)
  have d2: "exD2 = handleMouseMove exRnd exPtrFar exD1"
    unfolding exD2_def using d2flag by (rule goalEffect_unmet)
  have d2f: "dragStartPoint exD2 = Some r0" "isActuallyDragging exD2" "visiblePoints exD2 = []"
    "segs exD2 = initSegments exLevelSeg" "historyIndex exD2 = 0"
    using exS0_state(1,3) exS0_facts(2) by (simp_all add: d2 mv, simp_all add: d1)
  \<comment> \<open>release on the vertex (0, 1)\<close>
  from nearest_vertex [OF g0 g1, of exPtrUp exRnd exD2]
  obtain r1 where n1: "nearest exRnd exD2 exPtrUp = Some r1" and r1: "x r1 = 0" "y r1 = 1"
    by (auto simp: exPtrUp_def)
  have ne: "\<not> pointsEqual r0 r1"
    by (simp add: pointsEqual_def r0 r1 EPSILON_def)
  from exLevelSeg_init obtain sg where sg: "initSegments exLevelSeg = [sg]"
    "type sg = Some SEGMENT" "x (p1 sg) = 0" "y (p1 sg) = 0" "x (p2 sg) = 6" "y (p2 sg) = 6"
    by blast
  have nodup: "\<not> segmentsEqual sg \<lparr>p1 = r0, p2 = r1, type = Some SEGMENT\<rparr>"
    by (simp add: segmentsEqual_def sg typeOr_def pointsEqual_def r0 r1 EPSILON_def)
  define np where "np = revealIfNew (revealIfNew [] r0 (''revealed-s-'' @ string_of_nat (exNow 0)))
                          r1 (''revealed-e-'' @ string_of_nat (exNow 1))"
  define drawn where "drawn = \<lparr>p1 = r0, p2 = r1, type = Some SEGMENT,
                                sid = ''seg-'' @ string_of_nat (exNow 2), sIsInitial = None\<rparr>"
  have mu: "handleMouseUp exLevelSeg exRnd exNow exPtrUp exD2 =
      resetInteraction (commitToHistory np ([sg] @ [drawn]) exD2)"
    by (simp add: handleMouseUp_def d2f n1 ne exS0_state(5) sg(1) nodup Let_def np_def drawn_def)
  have s3: "segs exD3 = [sg, drawn]" "historyIndex exD3 = 1"
    by (simp_all add: exD3_def mu d2f)
  have r: "reachable exLevelSeg exD3"
  proof -
    have "step exLevelSeg exRnd (MouseDown exPtr) exS0 = Inr exD1"
      by (simp add: step_def exD1_def)
    with exS0_facts(1) have a: "reachable exLevelSeg exD1" by (rule reachable.act)
    have "step exLevelSeg exRnd (MouseMove exPtrFar) exD1 = Inr exD2"
      by (simp add: step_def exD2_def)
    with a have b: "reachable exLevelSeg exD2" by (rule reachable.act)
    have "step exLevelSeg exRnd (MouseUp exNow exPtrUp) exD2 = Inr exD3"
      by (simp add: step_def exD3_def)
    with b show ?thesis by (rule reachable.act)
  qed
  show ?thesis
    using r by (simp add: s3 drawn_def r0 r1)
qed

lemma exBad0_facts:
  "reachable exBadLevel exBad0" "length (segs exBad0) = 1"
  "pointsEqual (p1 (hd (segs exBad0))) (p2 (hd (segs exBad0)))" "\<not> linesOK exBad0"
proof -
  show "reachable exBadLevel exBad0" unfolding exBad0_def by (rule reachable.enter)
  have s: "segs exBad0 = initSegments exBadLevel"
    by (simp add: exBad0_def resetLevel_def)
  have i: "\<exists>sg. initSegments exBadLevel = [sg] \<and> x (p1 sg) = 1 \<and> y (p1 sg) = 1 \<and>
             x (p2 sg) = 1 \<and> y (p2 sg) = 1"
    by (simp add: initSegments_def exBadLevel_def listOr_def enumerate_simps)
  then obtain sg where sg: "initSegments exBadLevel = [sg]" "x (p1 sg) = 1" "y (p1 sg) = 1"
    "x (p2 sg) = 1" "y (p2 sg) = 1" by blast
  show "length (segs exBad0) = 1" by (simp add: s sg)
  show pe: "pointsEqual (p1 (hd (segs exBad0))) (p2 (hd (segs exBad0)))"
    by (simp add: s sg pointsEqual_def EPSILON_def)
  show "\<not> linesOK exBad0"
    by (simp add: linesOK_def s sg nonDegenerate_def pointsEqual_def EPSILON_def)
qed

section \<open>Lines of positive length: main result\<close>

text \<open>
  C10, as stated, fails for a level whose data already holds a zero-length line:
  \<open>resetLevel\<close> copies the initial lines of the level unchecked, so on entering \<open>exBadLevel\<close>
  the board and snapshot 0 hold the line from \<open>(1, 1)\<close> to \<open>(1, 1)\<close>.
\<close>

theorem degenerate_initial_line_counterexample:
  "reachable exBadLevel exBad0 \<and> length (segs exBad0) = 1 \<and>
   pointsEqual (p1 (hd (segs exBad0))) (p2 (hd (segs exBad0))) \<and>
   \<not> linesOK exBad0"
  using exBad0_facts by simp

text \<open>
  C10 (as amended). In every state of a visit of a level whose initial lines have endpoints
  that are not \<open>pointsEqual\<close>, every line of every snapshot of the history, and of the
  board, has endpoints that are not \<open>pointsEqual\<close>. Every level that the editor generates
  is such a level, so the same holds in every visit of an editor-made level. A drag in the
  play view whose end point is \<open>pointsEqual\<close> to its start point commits nothing (the handler
  only resets the interaction), and a drag in the editor whose snapped end is \<open>pointsEqual\<close>
  to its start adds no line.
\<close>

theorem no_zero_length_line:
  "(reachable lv s \<and> (\<forall>sg\<in>set (initSegments lv). nonDegenerate sg) \<longrightarrow> linesOK s) \<and>
   (editorReachable ed \<longrightarrow>
      (\<forall>sg\<in>set (initSegments (generatedLevel n ttl descr ty ed)). nonDegenerate sg)) \<and>
   (editorReachable ed \<and> reachable (generatedLevel n ttl descr ty ed) s' \<longrightarrow> linesOK s') \<and>
   (dragStartPoint s = Some a \<and> isActuallyDragging s \<and> nearest rnd s e = Some b \<and>
    pointsEqual a b \<longrightarrow>
      handleMouseUp lv rnd now e s = resetInteraction s \<and>
      history (handleMouseUp lv rnd now e s) = history s \<and>
      historyIndex (handleMouseUp lv rnd now e s) = historyIndex s \<and>
      segs (handleMouseUp lv rnd now e s) = segs s) \<and>
   (dragStart ed = Some a' \<and> snap (x c) (y c) = Some q \<and> pointsEqual a' q \<longrightarrow>
      initialSegments (LevelEditor_handleMouseUp now' c ed) = initialSegments ed \<and>
      goalSegments (LevelEditor_handleMouseUp now' c ed) = goalSegments ed)"
proof (intro conjI impI)
  assume "reachable lv s \<and> (\<forall>sg\<in>set (initSegments lv). nonDegenerate sg)"
  then show "linesOK s" using reachable_linesOK by blast
next
  assume "editorReachable ed"
  then have "editorOK ed" by (rule editorReachable_OK)
  then show "\<forall>sg\<in>set (initSegments (generatedLevel n ttl descr ty ed)). nonDegenerate sg"
    using generated_nonDegenerate by blast
next
  assume a: "editorReachable ed \<and> reachable (generatedLevel n ttl descr ty ed) s'"
  then have "editorOK ed" by (simp add: editorReachable_OK)
  then have "\<forall>sg\<in>set (initSegments (generatedLevel n ttl descr ty ed)). nonDegenerate sg"
    using generated_nonDegenerate by blast
  with a show "linesOK s'" using reachable_linesOK by blast
next
  assume a: "dragStartPoint s = Some a \<and> isActuallyDragging s \<and> nearest rnd s e = Some b \<and>
    pointsEqual a b"
  then have r: "handleMouseUp lv rnd now e s = resetInteraction s"
    using mouseUp_rejects [of s a rnd e b lv now] by blast
  show "handleMouseUp lv rnd now e s = resetInteraction s" by (rule r)
  show "history (handleMouseUp lv rnd now e s) = history s" by (simp add: r)
  show "historyIndex (handleMouseUp lv rnd now e s) = historyIndex s" by (simp add: r)
  show "segs (handleMouseUp lv rnd now e s) = segs s" by (simp add: r)
next
  assume a: "dragStart ed = Some a' \<and> snap (x c) (y c) = Some q \<and> pointsEqual a' q"
  then have r: "initialSegments (LevelEditor_handleMouseUp now' c ed) = initialSegments ed \<and>
         goalSegments (LevelEditor_handleMouseUp now' c ed) = goalSegments ed"
    using editor_rejects [of ed a' c q now'] by blast
  from r show "initialSegments (LevelEditor_handleMouseUp now' c ed) = initialSegments ed" by simp
  from r show "goalSegments (LevelEditor_handleMouseUp now' c ed) = goalSegments ed" by simp
qed

theorem no_zero_length_line_witness:
  "reachable exLevelSeg exD3 \<and> list_all nonDegenerate (initSegments exLevelSeg) \<and>
   length (segs exD3) = 2 \<and> historyIndex exD3 = 1 \<and>
   x (p1 (last (segs exD3))) = 0 \<and> y (p1 (last (segs exD3))) = 0 \<and>
   x (p2 (last (segs exD3))) = 0 \<and> y (p2 (last (segs exD3))) = 1 \<and>
   sIsInitial (last (segs exD3)) = None \<and>
   linesOK exD3 \<and> nonDegenerate (last (segs exD3)) \<and>
   editorReachable exEd \<and> length (initialSegments exEd) = 1 \<and>
   list_all nonDegenerate (initSegments exGenerated) \<and>
   reachable exGenerated exG0 \<and> length (segs exG0) = 1 \<and> linesOK exG0 \<and>
   dragStartPoint ex1d = Some (hd gridPoints) \<and> isActuallyDragging ex1d \<and>
   nearest exRnd ex1d exPtr = Some (hd gridPoints) \<and>
   pointsEqual (hd gridPoints) (hd gridPoints) \<and>
   handleMouseUp exLevel exRnd exNow exPtr ex1d = resetInteraction ex1d \<and>
   history (handleMouseUp exLevel exRnd exNow exPtr ex1d) = history ex1d \<and>
   dragStart exEdDrag = Some (mkPoint 0 0\<lparr>pid := ''p-'' @ string_of_nat 0\<rparr>) \<and>
   snap (1 / 10) (1 / 10) = Some \<lparr>x = 0, y = 0\<rparr> \<and>
   pointsEqual (mkPoint 0 0\<lparr>pid := ''p-'' @ string_of_nat 0\<rparr>) \<lparr>x = 0, y = 0\<rparr> \<and>
   initialSegments (LevelEditor_handleMouseUp exNow \<lparr>x = 1 / 10, y = 1 / 10\<rparr> exEdDrag) = []"
proof -
  note I1 = no_zero_length_line [where lv = exLevelSeg and s = exD3, THEN conjunct1]
  note I2 = no_zero_length_line [where ed = exEd and n = 7 and ttl = "''t''" and descr = "''d''"
      and ty = SEGMENT and s' = exG0, THEN conjunct2]
  note I3 = no_zero_length_line [where s = ex1d and a = "hd gridPoints" and b = "hd gridPoints"
      and rnd = exRnd and e = exPtr and lv = exLevel and now = exNow,
      THEN conjunct2, THEN conjunct2, THEN conjunct2, THEN conjunct1]
  note I4 = no_zero_length_line [where ed = exEdDrag
      and a' = "mkPoint 0 0\<lparr>pid := ''p-'' @ string_of_nat 0\<rparr>"
      and c = "\<lparr>x = 1 / 10, y = 1 / 10\<rparr>" and q = "\<lparr>x = 0, y = 0\<rparr>" and now' = exNow,
      THEN conjunct2, THEN conjunct2, THEN conjunct2, THEN conjunct2]
  have l1: "list_all nonDegenerate (initSegments exLevelSeg)"
    using exLevelSeg_lines(1) by (simp add: list_all_iff)
  have run: "reachable exLevelSeg exD3" "length (segs exD3) = 2" "historyIndex exD3 = 1"
    "x (p1 (last (segs exD3))) = 0" "y (p1 (last (segs exD3))) = 0"
    "x (p2 (last (segs exD3))) = 0" "y (p2 (last (segs exD3))) = 1"
    "sIsInitial (last (segs exD3)) = None"
    using exD_run by simp_all
  have ok1: "linesOK exD3"
    using I1 run(1) exLevelSeg_lines(1) by blast
  have "segs exD3 \<noteq> []" using run(2) by auto
  then have "last (segs exD3) \<in> set (segs exD3)" by (rule last_in_set)
  with ok1 have nd: "nonDegenerate (last (segs exD3))" by (simp add: linesOK_def)
  have l2: "list_all nonDegenerate (initSegments exGenerated)"
    using I2 [THEN conjunct1] exEd_facts(2) by (simp add: list_all_iff exGenerated_def)
  have ok2: "linesOK exG0"
    using I2 [THEN conjunct2, THEN conjunct1] exEd_facts(2) exG0_facts(1)
    by (simp add: exGenerated_def)
  have pe: "pointsEqual (hd gridPoints) (hd gridPoints)"
    by (simp add: pointsEqual_def EPSILON_def)
  have rej: "handleMouseUp exLevel exRnd exNow exPtr ex1d = resetInteraction ex1d \<and>
      history (handleMouseUp exLevel exRnd exNow exPtr ex1d) = history ex1d"
    using I3 ex1d_facts(2,3,4) pe by blast
  have pe2: "pointsEqual (mkPoint 0 0\<lparr>pid := ''p-'' @ string_of_nat 0\<rparr>) \<lparr>x = 0, y = 0\<rparr>"
    by (simp add: pointsEqual_def EPSILON_def mkPoint_def)
  have sn: "snap (x \<lparr>x = 1 / 10, y = 1 / 10\<rparr>) (y \<lparr>x = 1 / 10, y = 1 / 10\<rparr>) = Some \<lparr>x = 0, y = 0\<rparr>"
    by (simp add: snap_examples)
  have rej2: "initialSegments (LevelEditor_handleMouseUp exNow \<lparr>x = 1 / 10, y = 1 / 10\<rparr> exEdDrag) = []"
    using I4 exEdDrag_facts(1,4) sn pe2 by simp
  show ?thesis
    using run l1 ok1 nd exEd_facts(2,3) l2 exG0_facts ok2 ex1d_facts(2,3,4) pe rej
      exEdDrag_facts(1) snap_examples(3) pe2 rej2
    by (intro conjI) simp_all
qed

end
